theory Spec2Isabelle
  imports Main
begin

section \<open>The certificate registry \<open>CertificateNFT\<close>\<close>

text \<open>
  A shallow embedding of the Solidity contract \<open>CertificateNFT\<close>. Every external
  function becomes a HOL function from the call environment and the storage before the
  call to either an error (the call reverts) or the storage after the call together with
  the returned value. A \<open>uint256\<close> is a natural number, with the revert of Solidity 0.8
  checked arithmetic written out where the contract increments; an \<open>address\<close> is a
  natural number, \<open>0\<close> being \<open>address(0)\<close>; a Solidity \<open>mapping\<close> is a total function
  whose default is the zero value; the event log is a list, oldest record first. Names
  are those of the contract, without the leading underscore of its internal functions
  and variables (\<open>_mintBase\<close> is \<open>mintBase\<close>, \<open>_tokenIdCounter\<close> is \<open>tokenIdCounter\<close>).

  The contract mints with \<open>_safeMint\<close>, which calls the \<open>onERC721Received\<close> hook of the
  recipient in the middle of \<open>_mintBase\<close>, and it carries no reentrancy guard: the code
  of the recipient may call any entry point of the registry before the mint is
  finished. The functions that mint therefore take a first argument \<open>nested\<close>, the
  meaning of a call made from inside a hook.
\<close>

subsection \<open>Data\<close>

type_synonym address = nat

datatype CertificateType = REGULAR | SEMESTER | ACHIEVEMENT | CUSTOM

datatype role = DEFAULT_ADMIN_ROLE | ADMIN_ROLE | MINTER_ROLE | VERIFIER_ROLE

definition MAX_BATCH_SIZE :: nat where
  "MAX_BATCH_SIZE = 50"

text \<open>The largest \<open>uint256\<close>.\<close>

definition MAX_UINT256 :: nat where
  "MAX_UINT256 = 2 ^ 256 - 1"

text \<open>
  The errors a call can revert with: the seven custom errors the contract declares
  (\<open>Unauthorized\<close> is declared and never raised: a missing capability is reported by the
  access-control library as \<open>AccessControlUnauthorizedAccount\<close>), the errors of the
  inherited library contracts, the revert data of a recipient's hook, which \<open>_safeMint\<close>
  forwards as it is, and the \<open>Panic\<close> of the language itself (code \<open>0x11\<close> for arithmetic
  overflow, \<open>0x32\<close> for an array index out of range).
\<close>

datatype error =
    InvalidInput
  | Unauthorized
  | NotFound
  | AlreadyExists
  | Revoked
  | BatchLimit
  | LengthMismatch
  | AccessControlUnauthorizedAccount address role
  | EnforcedPause
  | ExpectedPause
  | ERC721InvalidReceiver address
  | ERC721InvalidSender address
  | ERC721NonexistentToken nat
  | ForwardedRevert string
  | Panic nat

record CertificateConfig =
  certType :: CertificateType
  isRevoked :: bool
  issuer :: address
  issueDate :: nat

record SemesterParams =
  serialNo :: string
  memoNo :: string
  regdNo :: string
  branch :: string
  examination :: string
  sgpa :: nat

datatype event =
    CertificateIssued nat address string CertificateType nat
  | RegularCertDetails nat string string
  | SemesterCertDetails nat string string nat
  | AchievementCertDetails nat string string
  | CustomCertDetails nat string
  | CertRevoked nat address
  | CertVerified nat address bool
  | Transfer address address nat
  | MetadataUpdate nat
  | RoleGranted role address address
  | RoleRevoked role address address
  | Paused address
  | Unpaused address

text \<open>
  The storage of the contract. The first six fields are the state variables the contract
  declares; \<open>owners\<close>, \<open>tokenURIs\<close>, \<open>roles\<close> and \<open>paused\<close> are the storage of the
  inherited ERC721URIStorage, AccessControl and Pausable that the contract reads or
  writes; \<open>logs\<close> is the event log.
\<close>

record registry =
  tokenIdCounter :: nat
  baseTokenURI :: string
  certConfigs :: "nat \<Rightarrow> CertificateConfig"
  studentCertificates :: "address \<Rightarrow> nat list"
  usedHashes :: "string \<Rightarrow> bool"
  usedUniqueIdentifiers :: "string \<Rightarrow> bool"
  owners :: "nat \<Rightarrow> address"
  tokenURIs :: "nat \<Rightarrow> string"
  roles :: "role \<Rightarrow> address \<Rightarrow> bool"
  paused :: bool
  logs :: "event list"

text \<open>
  The state-changing entry points of the registry (the \<open>view\<close> functions
  \<open>verifyCertificate\<close> and \<open>getStudentCertificates\<close> change nothing and are read on the
  storage directly), together with the grant and revoke primitives of the capability
  provider. The token transfer and approval entry points that the contract inherits from
  ERC721 are outside this interface.
\<close>

datatype call =
    MintCertificate address string string string
  | MintCertificatesBatch "address list" "string list" "string list" "string list"
  | MintSemesterCertificate address SemesterParams string
  | MintAchievementCertificate address string string string "address list"
  | MintCustomCertificate address string "string list" "string list" string
  | RevokeCertificate nat
  | VerifyCertificateByVerifier nat
  | SetBaseURI string
  | Pause
  | Unpause
  | GrantRole role address
  | RevokeRole role address

text \<open>
  How the \<open>onERC721Received\<close> hook of a recipient ends: it returns the expected selector,
  it returns something else, or it reverts with some data.
\<close>

datatype verdict = Accepts | Refuses | RevertsWith string

text \<open>
  What a call sees of the world: \<open>msg.sender\<close>, \<open>block.timestamp\<close>, and the code of the
  accounts that may receive a token. The hook of a recipient is given by what it does to
  the registry: from the recipient, the operator of the mint, the token id and the
  storage it finds, the calls it makes into the registry, each with the account that
  makes it, and its verdict. An account without code makes no call and accepts. The
  calls of a hook are calls of the interface above; a hook can also move the token it
  has received with the inherited transfer entry points, so the properties below say who
  owns a freshly minted token only for hooks that make no call.
\<close>

record env =
  sender :: address
  timestamp :: nat
  onERC721Received :: "address \<Rightarrow> address \<Rightarrow> nat \<Rightarrow> registry \<Rightarrow> (address \<times> call) list \<times> verdict"

text \<open>
  The meaning of one call into the registry when it is made from inside a hook: the
  storage it leaves (the storage it found when it reverts, the hook having caught the
  failure).
\<close>

type_synonym entry = "env \<Rightarrow> call \<Rightarrow> registry \<Rightarrow> registry"

definition emit :: "event \<Rightarrow> registry \<Rightarrow> registry" where
  "emit e s = s\<lparr>logs := logs s @ [e]\<rparr>"

text \<open>
  The storage after an external call: a call that reverts leaves the storage (and the
  log) as it was before the call.
\<close>

definition transact :: "registry \<Rightarrow> error + registry \<times> 'a \<Rightarrow> registry" where
  "transact s r = (case r of Inl e \<Rightarrow> s | Inr (s', x) \<Rightarrow> s')"

subsection \<open>Inherited library functions\<close>

text \<open>
  Modelled from the spec: the ownership ledger, the token reference store, the capability
  provider and the pause switch are the OpenZeppelin contracts ERC721URIStorage,
  AccessControl and Pausable (release 5), imported by the contract and not part of its
  source. The definitions of this subsection give the part of their behaviour the
  contract relies on; balances and approvals, which the contract never reads, are left
  out.
\<close>

text \<open>Modelled from the spec: \<open>ERC721._ownerOf\<close>, the owner recorded in the ledger
  (\<open>address(0)\<close> for a token that was never minted).\<close>

definition ownerOf :: "registry \<Rightarrow> nat \<Rightarrow> address" where
  "ownerOf s tokenId = owners s tokenId"

text \<open>The calls a hook makes, in order, each in the same block and the same world as
  the mint, with the account that makes it as sender.\<close>

fun callBack :: "entry \<Rightarrow> env \<Rightarrow> (address \<times> call) list \<Rightarrow> registry \<Rightarrow> registry" where
  "callBack nested e [] s = s"
| "callBack nested e ((a, c) # cs) s = callBack nested e cs (nested (e\<lparr>sender := a\<rparr>) c s)"

text \<open>Modelled from the spec: \<open>ERC721._safeMint\<close>. It refuses the zero address and a
  token that already has an owner, records the owner and emits \<open>Transfer\<close>, and then
  calls the hook of the recipient, whose code runs on the storage as it is at that
  moment. The mint goes on when the hook accepts; it reverts with
  \<open>ERC721InvalidReceiver\<close> when the hook returns a wrong value or reverts without data,
  and with the data of the hook when it reverts with some.\<close>

definition safeMint :: "entry \<Rightarrow> env \<Rightarrow> registry \<Rightarrow> address \<Rightarrow> nat \<Rightarrow> error + registry" where
  "safeMint nested e s to tokenId =
     (if to = 0 then Inl (ERC721InvalidReceiver 0)
      else if owners s tokenId \<noteq> 0 then Inl (ERC721InvalidSender 0)
      else
        let s1 = emit (Transfer 0 to tokenId) (s\<lparr>owners := (owners s)(tokenId := to)\<rparr>);
            reaction = onERC721Received e to (sender e) tokenId s1;
            s2 = callBack nested e (fst reaction) s1
        in case snd reaction of
             Accepts \<Rightarrow> Inr s2
           | Refuses \<Rightarrow> Inl (ERC721InvalidReceiver to)
           | RevertsWith reason \<Rightarrow>
               if reason = [] then Inl (ERC721InvalidReceiver to) else Inl (ForwardedRevert reason))"

text \<open>Modelled from the spec: \<open>ERC721URIStorage._setTokenURI\<close>.\<close>

definition setTokenURI :: "registry \<Rightarrow> nat \<Rightarrow> string \<Rightarrow> registry" where
  "setTokenURI s tokenId uri = emit (MetadataUpdate tokenId) (s\<lparr>tokenURIs := (tokenURIs s)(tokenId := uri)\<rparr>)"

text \<open>Modelled from the spec: \<open>ERC721URIStorage.tokenURI\<close>. The contract does not
  override \<open>_baseURI()\<close>, which is the empty string in ERC721 (\<open>_baseTokenURI\<close> is written
  by \<open>setBaseURI\<close> and never read), so the result is the stored reference itself.\<close>

definition tokenURI :: "registry \<Rightarrow> nat \<Rightarrow> error + string" where
  "tokenURI s tokenId =
     (if owners s tokenId = 0 then Inl (ERC721NonexistentToken tokenId)
      else Inr (tokenURIs s tokenId))"

text \<open>Modelled from the spec: \<open>AccessControl.hasRole\<close>, \<open>_grantRole\<close> and \<open>_revokeRole\<close>.\<close>

definition hasRole :: "registry \<Rightarrow> role \<Rightarrow> address \<Rightarrow> bool" where
  "hasRole s r a = roles s r a"

definition grantRole_internal :: "env \<Rightarrow> role \<Rightarrow> address \<Rightarrow> registry \<Rightarrow> registry" where
  "grantRole_internal e r a s =
     (if hasRole s r a then s
      else emit (RoleGranted r a (sender e)) (s\<lparr>roles := (roles s)(r := (roles s r)(a := True))\<rparr>))"

definition revokeRole_internal :: "env \<Rightarrow> role \<Rightarrow> address \<Rightarrow> registry \<Rightarrow> registry" where
  "revokeRole_internal e r a s =
     (if hasRole s r a
      then emit (RoleRevoked r a (sender e)) (s\<lparr>roles := (roles s)(r := (roles s r)(a := False))\<rparr>)
      else s)"

text \<open>Modelled from the spec: the external \<open>AccessControl.grantRole\<close> and \<open>revokeRole\<close>;
  the admin of every role is \<open>DEFAULT_ADMIN_ROLE\<close>, since the contract never changes it.\<close>

definition grantRole :: "env \<Rightarrow> registry \<Rightarrow> role \<Rightarrow> address \<Rightarrow> error + registry \<times> unit" where
  "grantRole e s r a =
     (if \<not> hasRole s DEFAULT_ADMIN_ROLE (sender e)
      then Inl (AccessControlUnauthorizedAccount (sender e) DEFAULT_ADMIN_ROLE)
      else Inr (grantRole_internal e r a s, ()))"

definition revokeRole :: "env \<Rightarrow> registry \<Rightarrow> role \<Rightarrow> address \<Rightarrow> error + registry \<times> unit" where
  "revokeRole e s r a =
     (if \<not> hasRole s DEFAULT_ADMIN_ROLE (sender e)
      then Inl (AccessControlUnauthorizedAccount (sender e) DEFAULT_ADMIN_ROLE)
      else Inr (revokeRole_internal e r a s, ()))"

subsection \<open>The contract\<close>

text \<open>The storage before the constructor runs: every variable has its zero value.\<close>

definition zeroConfig :: CertificateConfig where
  "zeroConfig = \<lparr>certType = REGULAR, isRevoked = False, issuer = 0, issueDate = 0\<rparr>"

definition emptyRegistry :: registry where
  "emptyRegistry =
     \<lparr>tokenIdCounter = 0, baseTokenURI = [], certConfigs = (\<lambda>_. zeroConfig),
      studentCertificates = (\<lambda>_. []), usedHashes = (\<lambda>_. False),
      usedUniqueIdentifiers = (\<lambda>_. False), owners = (\<lambda>_. 0), tokenURIs = (\<lambda>_. []),
      roles = (\<lambda>_ _. False), paused = False, logs = []\<rparr>"

definition constructor :: "env \<Rightarrow> registry" where
  "constructor e =
     grantRole_internal e MINTER_ROLE (sender e)
       (grantRole_internal e ADMIN_ROLE (sender e)
         (grantRole_internal e DEFAULT_ADMIN_ROLE (sender e) emptyRegistry))"

text \<open>
  \<open>_mintBase\<close>, in the order of the source: the three checks, the counter, \<open>_safeMint\<close>
  with the hook of the recipient, and only then the reference, the configuration, the
  owner index, the hash and the \<open>CertificateIssued\<close> record, written to the storage the
  hook has left.
\<close>

definition mintBase ::
  "entry \<Rightarrow> env \<Rightarrow> registry \<Rightarrow> address \<Rightarrow> string \<Rightarrow> CertificateType \<Rightarrow> error + registry \<times> nat" where
  "mintBase nested e s to ipfsHash cType =
     (if to = 0 then Inl InvalidInput
      else if length ipfsHash = 0 then Inl InvalidInput
      else if usedHashes s ipfsHash then Inl AlreadyExists
      else if tokenIdCounter s = MAX_UINT256 then Inl (Panic 0x11)
      else
        let s1 = s\<lparr>tokenIdCounter := tokenIdCounter s + 1\<rparr>;
            tokenId = tokenIdCounter s1
        in case safeMint nested e s1 to tokenId of
             Inl err \<Rightarrow> Inl err
           | Inr s2 \<Rightarrow>
               let s3 = setTokenURI s2 tokenId ipfsHash;
                   s4 = s3\<lparr>certConfigs := (certConfigs s3)(tokenId :=
                           \<lparr>certType = cType, isRevoked = False, issuer = sender e,
                            issueDate = timestamp e\<rparr>)\<rparr>;
                   s5 = s4\<lparr>studentCertificates := (studentCertificates s4)
                           (to := studentCertificates s4 to @ [tokenId])\<rparr>;
                   s6 = s5\<lparr>usedHashes := (usedHashes s5)(ipfsHash := True)\<rparr>
               in Inr (emit (CertificateIssued tokenId to ipfsHash cType (timestamp e)) s6, tokenId))"

text \<open>
  The loop of \<open>mintCertificatesBatch\<close>, from index \<open>i\<close>. Reading an array beyond its
  length reverts with \<open>Panic(0x32)\<close>; as every revert discards the writes of the call,
  the four index checks of one iteration are made together.
\<close>

function mintLoop ::
  "entry \<Rightarrow> env \<Rightarrow> address list \<Rightarrow> string list \<Rightarrow> string list \<Rightarrow> string list \<Rightarrow> nat \<Rightarrow> nat
     \<Rightarrow> registry \<Rightarrow> error + registry" where
  "mintLoop nested e students courseNames grades ipfsHashes len i s =
     (if i < len then
        (if length students \<le> i \<or> length ipfsHashes \<le> i \<or> length courseNames \<le> i
            \<or> length grades \<le> i
         then Inl (Panic 0x32)
         else case mintBase nested e s (students ! i) (ipfsHashes ! i) REGULAR of
                Inl err \<Rightarrow> Inl err
              | Inr (s', tid) \<Rightarrow>
                  mintLoop nested e students courseNames grades ipfsHashes len (i + 1)
                    (emit (RegularCertDetails tid (courseNames ! i) (grades ! i)) s'))
      else Inr s)"
  by pat_completeness auto

termination
  by (relation "measure (\<lambda>(nested, e, students, courseNames, grades, ipfsHashes, len, i, s). len - i)")
    auto

declare mintLoop.simps [simp del]

definition mintCertificatesBatch ::
  "entry \<Rightarrow> env \<Rightarrow> registry \<Rightarrow> address list \<Rightarrow> string list \<Rightarrow> string list \<Rightarrow> string list
     \<Rightarrow> error + registry \<times> unit" where
  "mintCertificatesBatch nested e s students courseNames grades ipfsHashes =
     (if \<not> hasRole s MINTER_ROLE (sender e)
      then Inl (AccessControlUnauthorizedAccount (sender e) MINTER_ROLE)
      else if paused s then Inl EnforcedPause
      else
        let len = length students
        in if len > MAX_BATCH_SIZE then Inl BatchLimit
           else if length courseNames \<noteq> len \<or> length grades \<noteq> len \<or> length ipfsHashes \<noteq> len
           then Inl LengthMismatch
           else case mintLoop nested e students courseNames grades ipfsHashes len 0 s of
                  Inl err \<Rightarrow> Inl err
                | Inr s' \<Rightarrow> Inr (s', ()))"

definition mintCertificate ::
  "entry \<Rightarrow> env \<Rightarrow> registry \<Rightarrow> address \<Rightarrow> string \<Rightarrow> string \<Rightarrow> string \<Rightarrow> error + registry \<times> nat" where
  "mintCertificate nested e s student courseName grade ipfsHash =
     (if \<not> hasRole s MINTER_ROLE (sender e)
      then Inl (AccessControlUnauthorizedAccount (sender e) MINTER_ROLE)
      else if paused s then Inl EnforcedPause
      else case mintBase nested e s student ipfsHash REGULAR of
             Inl err \<Rightarrow> Inl err
           | Inr (s', tid) \<Rightarrow> Inr (emit (RegularCertDetails tid courseName grade) s', tid))"

definition mintSemesterCertificate ::
  "entry \<Rightarrow> env \<Rightarrow> registry \<Rightarrow> address \<Rightarrow> SemesterParams \<Rightarrow> string \<Rightarrow> error + registry \<times> nat" where
  "mintSemesterCertificate nested e s student params ipfsHash =
     (if \<not> hasRole s MINTER_ROLE (sender e)
      then Inl (AccessControlUnauthorizedAccount (sender e) MINTER_ROLE)
      else if paused s then Inl EnforcedPause
      else if usedUniqueIdentifiers s (serialNo params) \<or> usedUniqueIdentifiers s (memoNo params)
      then Inl AlreadyExists
      else case mintBase nested e s student ipfsHash SEMESTER of
             Inl err \<Rightarrow> Inl err
           | Inr (s', tid) \<Rightarrow>
               let s1 = s'\<lparr>usedUniqueIdentifiers := (usedUniqueIdentifiers s')(serialNo params := True)\<rparr>;
                   s2 = s1\<lparr>usedUniqueIdentifiers := (usedUniqueIdentifiers s1)(memoNo params := True)\<rparr>
               in Inr (emit (SemesterCertDetails tid (serialNo params) (memoNo params) (sgpa params)) s2,
                       tid))"

definition mintAchievementCertificate ::
  "entry \<Rightarrow> env \<Rightarrow> registry \<Rightarrow> address \<Rightarrow> string \<Rightarrow> string \<Rightarrow> string \<Rightarrow> address list
     \<Rightarrow> error + registry \<times> nat" where
  "mintAchievementCertificate nested e s student title category ipfsHash verifiers =
     (if \<not> hasRole s MINTER_ROLE (sender e)
      then Inl (AccessControlUnauthorizedAccount (sender e) MINTER_ROLE)
      else if paused s then Inl EnforcedPause
      else case mintBase nested e s student ipfsHash ACHIEVEMENT of
             Inl err \<Rightarrow> Inl err
           | Inr (s', tid) \<Rightarrow> Inr (emit (AchievementCertDetails tid title category) s', tid))"

definition mintCustomCertificate ::
  "entry \<Rightarrow> env \<Rightarrow> registry \<Rightarrow> address \<Rightarrow> string \<Rightarrow> string list \<Rightarrow> string list \<Rightarrow> string
     \<Rightarrow> error + registry \<times> nat" where
  "mintCustomCertificate nested e s student templateId fieldNames fieldValues ipfsHash =
     (if \<not> hasRole s MINTER_ROLE (sender e)
      then Inl (AccessControlUnauthorizedAccount (sender e) MINTER_ROLE)
      else if paused s then Inl EnforcedPause
      else case mintBase nested e s student ipfsHash CUSTOM of
             Inl err \<Rightarrow> Inl err
           | Inr (s', tid) \<Rightarrow> Inr (emit (CustomCertDetails tid templateId) s', tid))"

definition revokeCertificate :: "env \<Rightarrow> registry \<Rightarrow> nat \<Rightarrow> error + registry \<times> unit" where
  "revokeCertificate e s tokenId =
     (if \<not> hasRole s ADMIN_ROLE (sender e)
      then Inl (AccessControlUnauthorizedAccount (sender e) ADMIN_ROLE)
      else if ownerOf s tokenId = 0 then Inl NotFound
      else if isRevoked (certConfigs s tokenId) then Inl Revoked
      else Inr (emit (CertRevoked tokenId (sender e))
                  (s\<lparr>certConfigs := (certConfigs s)(tokenId := (certConfigs s tokenId)\<lparr>isRevoked := True\<rparr>)\<rparr>),
                ()))"

text \<open>A \<open>view\<close> function: it returns a value and has no storage to return.\<close>

definition verifyCertificate ::
  "env \<Rightarrow> registry \<Rightarrow> nat \<Rightarrow> error + bool \<times> string \<times> CertificateType" where
  "verifyCertificate e s tokenId =
     (if ownerOf s tokenId = 0 then Inr (False, [], REGULAR)
      else
        let conf = certConfigs s tokenId
        in if isRevoked conf then Inr (False, [], certType conf)
           else case tokenURI s tokenId of
                  Inl err \<Rightarrow> Inl err
                | Inr uri \<Rightarrow> Inr (True, uri, certType conf))"

definition verifyCertificateByVerifier ::
  "env \<Rightarrow> registry \<Rightarrow> nat \<Rightarrow> error + registry \<times> bool \<times> CertificateType" where
  "verifyCertificateByVerifier e s tokenId =
     (if \<not> hasRole s VERIFIER_ROLE (sender e)
      then Inl (AccessControlUnauthorizedAccount (sender e) VERIFIER_ROLE)
      else case verifyCertificate e s tokenId of
             Inl err \<Rightarrow> Inl err
           | Inr (valid, uri, cType) \<Rightarrow>
               Inr (emit (CertVerified tokenId (sender e) valid) s, valid, cType))"


definition setBaseURI :: "env \<Rightarrow> registry \<Rightarrow> string \<Rightarrow> error + registry \<times> unit" where
  "setBaseURI e s baseURI =
     (if \<not> hasRole s ADMIN_ROLE (sender e)
      then Inl (AccessControlUnauthorizedAccount (sender e) ADMIN_ROLE)
      else Inr (s\<lparr>baseTokenURI := baseURI\<rparr>, ()))"

definition pause :: "env \<Rightarrow> registry \<Rightarrow> error + registry \<times> unit" where
  "pause e s =
     (if \<not> hasRole s ADMIN_ROLE (sender e)
      then Inl (AccessControlUnauthorizedAccount (sender e) ADMIN_ROLE)
      else if paused s then Inl EnforcedPause
      else Inr (emit (Paused (sender e)) (s\<lparr>paused := True\<rparr>), ()))"

definition unpause :: "env \<Rightarrow> registry \<Rightarrow> error + registry \<times> unit" where
  "unpause e s =
     (if \<not> hasRole s ADMIN_ROLE (sender e)
      then Inl (AccessControlUnauthorizedAccount (sender e) ADMIN_ROLE)
      else if \<not> paused s then Inl ExpectedPause
      else Inr (emit (Unpaused (sender e)) (s\<lparr>paused := False\<rparr>), ()))"

subsection \<open>Transactions and traces\<close>

text \<open>The outcome of a call for the storage: the error, or the storage it commits.\<close>

definition outcome :: "error + registry \<times> 'a \<Rightarrow> error + registry" where
  "outcome r = (case r of Inl err \<Rightarrow> Inl err | Inr (s', x) \<Rightarrow> Inr s')"

fun dispatch :: "entry \<Rightarrow> env \<Rightarrow> call \<Rightarrow> registry \<Rightarrow> error + registry" where
  "dispatch nested e (MintCertificate student courseName grade ipfsHash) s =
     outcome (mintCertificate nested e s student courseName grade ipfsHash)"
| "dispatch nested e (MintCertificatesBatch students courseNames grades ipfsHashes) s =
     outcome (mintCertificatesBatch nested e s students courseNames grades ipfsHashes)"
| "dispatch nested e (MintSemesterCertificate student params ipfsHash) s =
     outcome (mintSemesterCertificate nested e s student params ipfsHash)"
| "dispatch nested e (MintAchievementCertificate student title category ipfsHash verifiers) s =
     outcome (mintAchievementCertificate nested e s student title category ipfsHash verifiers)"
| "dispatch nested e (MintCustomCertificate student templateId fieldNames fieldValues ipfsHash) s =
     outcome (mintCustomCertificate nested e s student templateId fieldNames fieldValues ipfsHash)"
| "dispatch nested e (RevokeCertificate tokenId) s = outcome (revokeCertificate e s tokenId)"
| "dispatch nested e (VerifyCertificateByVerifier tokenId) s =
     outcome (verifyCertificateByVerifier e s tokenId)"
| "dispatch nested e (SetBaseURI baseURI) s = outcome (setBaseURI e s baseURI)"
| "dispatch nested e Pause s = outcome (pause e s)"
| "dispatch nested e Unpause s = outcome (unpause e s)"
| "dispatch nested e (GrantRole r a) s = outcome (grantRole e s r a)"
| "dispatch nested e (RevokeRole r a) s = outcome (revokeRole e s r a)"

text \<open>One call: the storage after it, the same as before when it reverts.\<close>

definition step :: "entry \<Rightarrow> env \<Rightarrow> call \<Rightarrow> registry \<Rightarrow> registry" where
  "step nested e c s = (case dispatch nested e c s of Inl err \<Rightarrow> s | Inr s' \<Rightarrow> s')"

text \<open>
  The calls made from inside a hook, \<open>d\<close> levels of calls being left to them: with none
  left the call fails and changes nothing; otherwise it is a call like any other, whose
  own hooks have one level less. A transaction sent to the registry is
  \<open>step (nestedAt d)\<close>, for the depth \<open>d\<close> that the call stack and the gas leave to the
  hooks.
\<close>

primrec nestedAt :: "nat \<Rightarrow> entry" where
  "nestedAt 0 = (\<lambda>e c s. s)"
| "nestedAt (Suc d) = step (nestedAt d)"

text \<open>A sequence of transactions, each with its own caller, time and world, run in order.\<close>

fun run :: "nat \<Rightarrow> (env \<times> call) list \<Rightarrow> registry \<Rightarrow> registry" where
  "run d [] s = s"
| "run d ((e, c) # cs) s = run d cs (step (nestedAt d) e c s)"

text \<open>
  The no-callback condition: in the world of \<open>e\<close> no hook calls into the registry.
\<close>

definition quiet :: "env \<Rightarrow> bool" where
  "quiet e = (\<forall>to operator tokenId s. fst (onERC721Received e to operator tokenId s) = [])"

text \<open>
  The two halves of \<open>_mintBase\<close>, for the proofs: the storage it hands to the hook of the
  recipient (counter advanced, owner recorded, \<open>Transfer\<close> emitted), and the storage it
  leaves from the storage \<open>sh\<close> that the hook has left.
\<close>

definition mintOpen :: "registry \<Rightarrow> address \<Rightarrow> registry" where
  "mintOpen s to =
     emit (Transfer 0 to (Suc (tokenIdCounter s)))
       (s\<lparr>tokenIdCounter := Suc (tokenIdCounter s),
          owners := (owners s)(Suc (tokenIdCounter s) := to)\<rparr>)"

definition mintClose ::
  "env \<Rightarrow> registry \<Rightarrow> address \<Rightarrow> nat \<Rightarrow> string \<Rightarrow> CertificateType \<Rightarrow> registry" where
  "mintClose e sh to tokenId ipfsHash cType =
     emit (CertificateIssued tokenId to ipfsHash cType (timestamp e))
       (emit (MetadataUpdate tokenId)
         (sh\<lparr>tokenURIs := (tokenURIs sh)(tokenId := ipfsHash),
             certConfigs := (certConfigs sh)(tokenId :=
               \<lparr>certType = cType, isRevoked = False, issuer = sender e, issueDate = timestamp e\<rparr>),
             studentCertificates := (studentCertificates sh)
               (to := studentCertificates sh to @ [tokenId]),
             usedHashes := (usedHashes sh)(ipfsHash := True)\<rparr>))"

text \<open>
  The mints recorded in a log: the token id and the student of every \<open>CertificateIssued\<close>
  record, oldest first; the ids among them issued to one student; and the serial number
  of every \<open>SemesterCertDetails\<close> record.
\<close>

fun issued :: "event list \<Rightarrow> (nat \<times> address) list" where
  "issued [] = []"
| "issued (CertificateIssued tokenId student ipfsHash cType ts # evs) = (tokenId, student) # issued evs"
| "issued (ev # evs) = issued evs"

definition issuedTo :: "address \<Rightarrow> event list \<Rightarrow> nat list" where
  "issuedTo a evs = map fst (filter (\<lambda>p. snd p = a) (issued evs))"

fun serials :: "event list \<Rightarrow> string list" where
  "serials [] = []"
| "serials (SemesterCertDetails tokenId serial memo points # evs) = serial # serials evs"
| "serials (ev # evs) = serials evs"

text \<open>
  Element \<open>i\<close> of a batch cannot be minted from storage \<open>s\<close>: its owner is the zero
  address, its content hash is empty, or its content hash is a duplicate, of a hash
  registered before the call or of an earlier element of the batch.
\<close>

definition elementRejected :: "registry \<Rightarrow> address list \<Rightarrow> string list \<Rightarrow> nat \<Rightarrow> bool" where
  "elementRejected s students ipfsHashes i =
     (students ! i = 0 \<or> ipfsHashes ! i = [] \<or> usedHashes s (ipfsHashes ! i)
      \<or> ipfsHashes ! i \<in> set (take i ipfsHashes))"


subsection \<open>A deployment used in the examples\<close>

text \<open>
  Account \<open>1\<close> deploys the registry and so holds the ADMIN and MINTER capabilities;
  accounts \<open>2\<close> and \<open>3\<close> are students. In the world of \<open>deployer\<close> and \<open>outsider\<close> no
  account has code: every recipient accepts and calls nothing. The examples leave two
  levels of calls to the hooks.
\<close>

definition deployer :: env where
  "deployer = \<lparr>sender = 1, timestamp = 1000, onERC721Received = (\<lambda>to operator tokenId s. ([], Accepts))\<rparr>"

definition outsider :: env where
  "outsider = \<lparr>sender = 9, timestamp = 2000, onERC721Received = (\<lambda>to operator tokenId s. ([], Accepts))\<rparr>"

definition deployed :: registry where
  "deployed = constructor deployer"

text \<open>
  The deployer mints certificate 1 for student 2 with content hash \<open>QmH1\<close>; then pauses
  the registry.
\<close>

definition afterMint :: registry where
  "afterMint = step (nestedAt 2) deployer (MintCertificate 2 ''Course 1'' ''A'' ''QmH1'') deployed"

definition pausedRegistry :: registry where
  "pausedRegistry = step (nestedAt 2) deployer Pause afterMint"

text \<open>Instead of pausing, the deployer revokes certificate 1.\<close>

definition afterRevoke :: registry where
  "afterRevoke = step (nestedAt 2) deployer (RevokeCertificate 1) afterMint"

text \<open>
  A longer history: a single mint for student 2, a batch for students 3 and 2, the
  revocation of certificate 1, a mint refused for its duplicate hash, and a custom
  certificate for student 2.
\<close>

definition history :: "(env \<times> call) list" where
  "history =
     [(deployer, MintCertificate 2 ''Course 1'' ''A'' ''QmH1''),
      (deployer, MintCertificatesBatch [3, 2] [''Course 2'', ''Course 3''] [''B'', ''C'']
                   [''QmH2'', ''QmH3'']),
      (deployer, RevokeCertificate 1),
      (deployer, MintAchievementCertificate 3 ''Best Coder'' ''Academic'' ''QmH2'' []),
      (deployer, MintCustomCertificate 2 ''custom-v1'' [''Field1''] [''Value1''] ''QmH4'')]"

text \<open>The parameters of a semester certificate.\<close>

definition sampleParams :: SemesterParams where
  "sampleParams =
     \<lparr>serialNo = ''S-001'', memoNo = ''M-001'', regdNo = ''R-001'', branch = ''CSE'',
      examination = ''Semester 1'', sgpa = 912\<rparr>"


text \<open>
  A recipient with code. Account \<open>5\<close> is a contract, and the deployer has granted it the
  MINTER and the ADMIN capability. In the three worlds below its hook accepts the token
  after one call into the registry: it mints a certificate for student 3; it revokes the
  certificate it is receiving; it mints a semester certificate for student 3 under the
  serial number \<open>S-001\<close> of \<open>sampleParams\<close>.
\<close>

definition withContract :: registry where
  "withContract = run 2 [(deployer, GrantRole MINTER_ROLE 5), (deployer, GrantRole ADMIN_ROLE 5)] deployed"

definition mintingRecipient :: env where
  "mintingRecipient =
     \<lparr>sender = 1, timestamp = 1000,
      onERC721Received = (\<lambda>to operator tokenId s.
        if to = 5 then ([(5, MintCertificate 3 ''Course 2'' ''B'' ''QmH2'')], Accepts)
        else ([], Accepts))\<rparr>"



text \<open>
  The deployer mints for the contract \<open>5\<close> in each of the three worlds: a regular
  certificate in the first two, a semester certificate with \<open>sampleParams\<close> in the third.
\<close>

definition reentrantMint :: registry where
  "reentrantMint =
     step (nestedAt 2) mintingRecipient (MintCertificate 5 ''Course 1'' ''A'' ''QmH1'') withContract"



section \<open>Properties\<close>

lemma transact_outcome: "transact s r = (case outcome r of Inl err \<Rightarrow> s | Inr s' \<Rightarrow> s')"
  by (auto simp: transact_def outcome_def split: sum.splits)

lemma step_simps [simp]:
  "step nested e (MintCertificate student courseName grade ipfsHash) s =
     transact s (mintCertificate nested e s student courseName grade ipfsHash)"
  "step nested e (MintCertificatesBatch students courseNames grades ipfsHashes) s =
     transact s (mintCertificatesBatch nested e s students courseNames grades ipfsHashes)"
  "step nested e (MintSemesterCertificate student params ipfsHash) s =
     transact s (mintSemesterCertificate nested e s student params ipfsHash)"
  "step nested e (MintAchievementCertificate student title category ipfsHash verifiers) s =
     transact s (mintAchievementCertificate nested e s student title category ipfsHash verifiers)"
  "step nested e (MintCustomCertificate student templateId fieldNames fieldValues ipfsHash) s =
     transact s (mintCustomCertificate nested e s student templateId fieldNames fieldValues ipfsHash)"
  "step nested e (RevokeCertificate tokenId) s = transact s (revokeCertificate e s tokenId)"
  "step nested e (VerifyCertificateByVerifier tokenId) s = transact s (verifyCertificateByVerifier e s tokenId)"
  "step nested e (SetBaseURI baseURI) s = transact s (setBaseURI e s baseURI)"
  "step nested e Pause s = transact s (pause e s)"
  "step nested e Unpause s = transact s (unpause e s)"
  "step nested e (GrantRole r a) s = transact s (grantRole e s r a)"
  "step nested e (RevokeRole r a) s = transact s (revokeRole e s r a)"
  by (simp_all add: step_def transact_outcome)

lemma emit_fields [simp]:
  "tokenIdCounter (emit ev s) = tokenIdCounter s"
  "baseTokenURI (emit ev s) = baseTokenURI s"
  "certConfigs (emit ev s) = certConfigs s"
  "studentCertificates (emit ev s) = studentCertificates s"
  "usedHashes (emit ev s) = usedHashes s"
  "usedUniqueIdentifiers (emit ev s) = usedUniqueIdentifiers s"
  "owners (emit ev s) = owners s"
  "tokenURIs (emit ev s) = tokenURIs s"
  "roles (emit ev s) = roles s"
  "paused (emit ev s) = paused s"
  "logs (emit ev s) = logs s @ [ev]"
  by (simp_all add: emit_def)

lemma mintOpen_fields [simp]:
  "tokenIdCounter (mintOpen s to) = Suc (tokenIdCounter s)"
  "baseTokenURI (mintOpen s to) = baseTokenURI s"
  "certConfigs (mintOpen s to) = certConfigs s"
  "studentCertificates (mintOpen s to) = studentCertificates s"
  "usedHashes (mintOpen s to) = usedHashes s"
  "usedUniqueIdentifiers (mintOpen s to) = usedUniqueIdentifiers s"
  "owners (mintOpen s to) = (owners s)(Suc (tokenIdCounter s) := to)"
  "tokenURIs (mintOpen s to) = tokenURIs s"
  "roles (mintOpen s to) = roles s"
  "paused (mintOpen s to) = paused s"
  "logs (mintOpen s to) = logs s @ [Transfer 0 to (Suc (tokenIdCounter s))]"
  by (simp_all add: mintOpen_def)

lemma mintClose_fields [simp]:
  "tokenIdCounter (mintClose e sh to tid h cT) = tokenIdCounter sh"
  "baseTokenURI (mintClose e sh to tid h cT) = baseTokenURI sh"
  "certConfigs (mintClose e sh to tid h cT) = (certConfigs sh)(tid :=
     \<lparr>certType = cT, isRevoked = False, issuer = sender e, issueDate = timestamp e\<rparr>)"
  "studentCertificates (mintClose e sh to tid h cT)
     = (studentCertificates sh)(to := studentCertificates sh to @ [tid])"
  "usedHashes (mintClose e sh to tid h cT) = (usedHashes sh)(h := True)"
  "usedUniqueIdentifiers (mintClose e sh to tid h cT) = usedUniqueIdentifiers sh"
  "owners (mintClose e sh to tid h cT) = owners sh"
  "tokenURIs (mintClose e sh to tid h cT) = (tokenURIs sh)(tid := h)"
  "roles (mintClose e sh to tid h cT) = roles sh"
  "paused (mintClose e sh to tid h cT) = paused sh"
  "logs (mintClose e sh to tid h cT)
     = logs sh @ [MetadataUpdate tid, CertificateIssued tid to h cT (timestamp e)]"
  by (simp_all add: mintClose_def)

text \<open>What a successful \<open>_mintBase\<close> required and what it wrote, around the hook.\<close>

lemma mintBase_InrD:
  assumes "mintBase nested e s to h cT = Inr (s', tid)"
  shows "to \<noteq> 0" "h \<noteq> []" "\<not> usedHashes s h" "tid = Suc (tokenIdCounter s)"
    "owners s tid = 0"
    "snd (onERC721Received e to (sender e) tid (mintOpen s to)) = Accepts"
    "s' = mintClose e
            (callBack nested e (fst (onERC721Received e to (sender e) tid (mintOpen s to)))
               (mintOpen s to))
            to tid h cT"
  using assms
  by (auto simp: mintBase_def safeMint_def setTokenURI_def emit_def mintOpen_def mintClose_def
      Let_def split: if_splits verdict.splits)

lemma callBack_invariant:
  assumes "\<And>e c s. P s \<Longrightarrow> P (nested e c s)" and "P s"
  shows "P (callBack nested e cs s)"
  using assms(2)
proof (induction cs arbitrary: s)
  case Nil
  then show ?case by simp
next
  case (Cons x cs)
  obtain a c where "x = (a, c)" by (cases x)
  with Cons assms(1) show ?case by simp
qed

text \<open>
  A property kept by the calls of the hook, by the writes before the hook and by the
  writes after it is kept by \<open>_mintBase\<close>.
\<close>

lemma mintBase_invariant:
  assumes ok: "mintBase nested e s to h cT = Inr (s', tid)" and P: "P s"
    and nested: "\<And>e c s. P s \<Longrightarrow> P (nested e c s)"
    and opn: "to \<noteq> 0 \<Longrightarrow> owners s (Suc (tokenIdCounter s)) = 0 \<Longrightarrow> P (mintOpen s to)"
    and cls: "\<And>sh. P sh \<Longrightarrow> to \<noteq> 0 \<Longrightarrow> h \<noteq> [] \<Longrightarrow> owners s (Suc (tokenIdCounter s)) = 0
                \<Longrightarrow> P (mintClose e sh to (Suc (tokenIdCounter s)) h cT)"
  shows "P s'"
proof -
  note d = mintBase_InrD[OF ok]
  from d(1,4,5) have "P (mintOpen s to)" by (intro opn) simp_all
  have o: "P (mintOpen s to)" by fact
  have "P (callBack nested e (fst (onERC721Received e to (sender e) tid (mintOpen s to)))
               (mintOpen s to))"
  proof (rule callBack_invariant[where P = P])
    fix e c s assume "P s"
    then show "P (nested e c s)" by (rule nested)
  qed (rule o)
  then have "P (mintClose e (callBack nested e (fst (onERC721Received e to (sender e) tid (mintOpen s to)))
               (mintOpen s to)) to (Suc (tokenIdCounter s)) h cT)"
    using d(1,2,4,5) by (intro cls) simp_all
  with d(4,7) show ?thesis by simp
qed

text \<open>When the hook of the recipient makes no call, \<open>_mintBase\<close> is its two halves.\<close>

lemma mintBase_quiet:
  assumes "mintBase nested e s to h cT = Inr (s', tid)" and "quiet e"
  shows "s' = mintClose e (mintOpen s to) to tid h cT"
  using mintBase_InrD(7)[OF assms(1)] assms(2) by (simp add: quiet_def)

text \<open>A property kept by every single mint of the loop is kept by the loop.\<close>

lemma mintLoop_invariant:
  assumes "mintLoop nested e students courseNames grades ipfsHashes len i s = Inr s'" and "P s"
    and "\<And>s to h s1 tid c g. P s \<Longrightarrow> mintBase nested e s to h REGULAR = Inr (s1, tid)
           \<Longrightarrow> P (emit (RegularCertDetails tid c g) s1)"
  shows "P s'"
  using assms
proof (induction nested e students courseNames grades ipfsHashes len i s rule: mintLoop.induct)
  case (1 nested e students courseNames grades ipfsHashes len i s)
  show ?case
  proof (cases "i < len")
    case False
    with "1.prems" show ?thesis by (subst (asm) mintLoop.simps) simp
  next
    case il: True
    from "1.prems"(1) il have inb: "\<not> (length students \<le> i \<or> length ipfsHashes \<le> i \<or> length courseNames \<le> i \<or> length grades \<le> i)"
      by (subst (asm) mintLoop.simps) (auto split: if_splits)
    from "1.prems"(1) il inb obtain s1 tid where
      mb: "mintBase nested e s (students ! i) (ipfsHashes ! i) REGULAR = Inr (s1, tid)" and
      rest: "mintLoop nested e students courseNames grades ipfsHashes len (i + 1)
             (emit (RegularCertDetails tid (courseNames ! i) (grades ! i)) s1) = Inr s'"
      by (subst (asm) mintLoop.simps) (auto split: if_splits sum.splits)
    have "P (emit (RegularCertDetails tid (courseNames ! i) (grades ! i)) s1)"
      using "1.prems"(2,3) mb by blast
    from "1.IH"[OF il inb mb refl rest this "1.prems"(3)] show ?thesis .
  qed
qed

lemma issued_append [simp]: "issued (xs @ ys) = issued xs @ issued ys"
  by (induction xs rule: issued.induct) simp_all

lemma issuedTo_append [simp]: "issuedTo a (xs @ ys) = issuedTo a xs @ issuedTo a ys"
  by (simp add: issuedTo_def)

lemma serials_append [simp]: "serials (xs @ ys) = serials xs @ serials ys"
  by (induction xs rule: serials.induct) simp_all

text \<open>The successful outcomes of the mint functions, in terms of \<open>_mintBase\<close>.\<close>

lemma mintCertificate_InrD:
  assumes "mintCertificate nested e s student courseName grade ipfsHash = Inr (s', tid)"
  obtains s1 where "mintBase nested e s student ipfsHash REGULAR = Inr (s1, tid)"
    and "s' = emit (RegularCertDetails tid courseName grade) s1"
    and "hasRole s MINTER_ROLE (sender e)" and "\<not> paused s"
  using assms by (auto simp: mintCertificate_def split: if_splits sum.splits)

lemma mintAchievementCertificate_InrD:
  assumes "mintAchievementCertificate nested e s student title category ipfsHash verifiers = Inr (s', tid)"
  obtains s1 where "mintBase nested e s student ipfsHash ACHIEVEMENT = Inr (s1, tid)"
    and "s' = emit (AchievementCertDetails tid title category) s1"
    and "hasRole s MINTER_ROLE (sender e)" and "\<not> paused s"
  using assms by (auto simp: mintAchievementCertificate_def split: if_splits sum.splits)

lemma mintCustomCertificate_InrD:
  assumes "mintCustomCertificate nested e s student templateId fieldNames fieldValues ipfsHash = Inr (s', tid)"
  obtains s1 where "mintBase nested e s student ipfsHash CUSTOM = Inr (s1, tid)"
    and "s' = emit (CustomCertDetails tid templateId) s1"
    and "hasRole s MINTER_ROLE (sender e)" and "\<not> paused s"
  using assms by (auto simp: mintCustomCertificate_def split: if_splits sum.splits)

lemma mintSemesterCertificate_InrD:
  assumes "mintSemesterCertificate nested e s student params ipfsHash = Inr (s', tid)"
  obtains s1 where "mintBase nested e s student ipfsHash SEMESTER = Inr (s1, tid)"
    and "s' = emit (SemesterCertDetails tid (serialNo params) (memoNo params) (sgpa params))
                (s1\<lparr>usedUniqueIdentifiers :=
                     ((usedUniqueIdentifiers s1)(serialNo params := True))(memoNo params := True)\<rparr>)"
    and "hasRole s MINTER_ROLE (sender e)" and "\<not> paused s"
    and "\<not> usedUniqueIdentifiers s (serialNo params)" and "\<not> usedUniqueIdentifiers s (memoNo params)"
  using assms by (auto simp: mintSemesterCertificate_def Let_def split: if_splits sum.splits)

lemma mintCertificatesBatch_InrD:
  assumes "mintCertificatesBatch nested e s students courseNames grades ipfsHashes = Inr (s', u)"
  shows "mintLoop nested e students courseNames grades ipfsHashes (length students) 0 s = Inr s'"
    and "length students \<le> MAX_BATCH_SIZE" and "length courseNames = length students"
    and "length grades = length students" and "length ipfsHashes = length students"
    and "hasRole s MINTER_ROLE (sender e)" and "\<not> paused s"
  using assms by (auto simp: mintCertificatesBatch_def Let_def split: if_splits sum.splits)

text \<open>
  A property of the storage is kept by a call when it is kept by a single \<open>_mintBase\<close> of
  that call, by a log record other than \<open>CertificateIssued\<close>, and by each of the other
  writes the entry points make.
\<close>

lemma step_invariant:
  assumes P: "P s"
    and mint: "\<And>s to h cT s1 tid. P s \<Longrightarrow> mintBase nested e s to h cT = Inr (s1, tid) \<Longrightarrow> P s1"
    and ev: "\<And>s ev. P s \<Longrightarrow> issued [ev] = [] \<Longrightarrow> P (emit ev s)"
    and uid: "\<And>s x y. P s \<Longrightarrow>
        P (s\<lparr>usedUniqueIdentifiers := ((usedUniqueIdentifiers s)(x := True))(y := True)\<rparr>)"
    and rev: "\<And>s t. P s \<Longrightarrow> owners s t \<noteq> 0 \<Longrightarrow> \<not> isRevoked (certConfigs s t) \<Longrightarrow>
        P (s\<lparr>certConfigs := (certConfigs s)(t := (certConfigs s t)\<lparr>isRevoked := True\<rparr>)\<rparr>)"
    and uri: "\<And>s u. P s \<Longrightarrow> P (s\<lparr>baseTokenURI := u\<rparr>)"
    and pz: "\<And>s b. P s \<Longrightarrow> P (s\<lparr>paused := b\<rparr>)"
    and rl: "\<And>s r. P s \<Longrightarrow> P (s\<lparr>roles := r\<rparr>)"
  shows "P (step nested e c s)"
proof (cases c)
  case (MintCertificate student courseName grade ipfsHash)
  show ?thesis
  proof (cases "mintCertificate nested e s student courseName grade ipfsHash")
    case (Inl err)
    with MintCertificate P show ?thesis by (simp add: transact_def)
  next
    case (Inr r)
    obtain s' tid where r: "r = (s', tid)" by (cases r)
    from Inr r obtain s1 where mb: "mintBase nested e s student ipfsHash REGULAR = Inr (s1, tid)"
      and s': "s' = emit (RegularCertDetails tid courseName grade) s1"
      by (auto elim: mintCertificate_InrD)
    from P mb have "P s1" by (rule mint)
    then have "P s'" unfolding s' by (rule ev) simp
    with MintCertificate Inr r show ?thesis by (simp add: transact_def)
  qed
next
  case (MintCertificatesBatch students courseNames grades ipfsHashes)
  show ?thesis
  proof (cases "mintCertificatesBatch nested e s students courseNames grades ipfsHashes")
    case (Inl err)
    with MintCertificatesBatch P show ?thesis by (simp add: transact_def)
  next
    case (Inr r)
    obtain s' u where r: "r = (s', u)" by (cases r)
    from Inr r have loop: "mintLoop nested e students courseNames grades ipfsHashes (length students) 0 s = Inr s'"
      by (simp add: mintCertificatesBatch_InrD)
    have "P s'"
    proof (rule mintLoop_invariant[where P = P, OF loop P])
      fix s to h s1 tid c g
      assume "P s" "mintBase nested e s to h REGULAR = Inr (s1, tid)"
      then have "P s1" by (rule mint)
      then show "P (emit (RegularCertDetails tid c g) s1)" by (rule ev) simp
    qed
    with MintCertificatesBatch Inr r show ?thesis by (simp add: transact_def)
  qed
next
  case (MintSemesterCertificate student params ipfsHash)
  show ?thesis
  proof (cases "mintSemesterCertificate nested e s student params ipfsHash")
    case (Inl err)
    with MintSemesterCertificate P show ?thesis by (simp add: transact_def)
  next
    case (Inr r)
    obtain s' tid where r: "r = (s', tid)" by (cases r)
    from Inr r obtain s1 where mb: "mintBase nested e s student ipfsHash SEMESTER = Inr (s1, tid)"
      and s': "s' = emit (SemesterCertDetails tid (serialNo params) (memoNo params) (sgpa params))
                (s1\<lparr>usedUniqueIdentifiers :=
                     ((usedUniqueIdentifiers s1)(serialNo params := True))(memoNo params := True)\<rparr>)"
      by (auto elim: mintSemesterCertificate_InrD)
    from P mb have "P s1" by (rule mint)
    then have "P (s1\<lparr>usedUniqueIdentifiers :=
                     ((usedUniqueIdentifiers s1)(serialNo params := True))(memoNo params := True)\<rparr>)"
      by (rule uid)
    then have "P s'" unfolding s' by (rule ev) simp
    with MintSemesterCertificate Inr r show ?thesis by (simp add: transact_def)
  qed
next
  case (MintAchievementCertificate student title category ipfsHash verifiers)
  show ?thesis
  proof (cases "mintAchievementCertificate nested e s student title category ipfsHash verifiers")
    case (Inl err)
    with MintAchievementCertificate P show ?thesis by (simp add: transact_def)
  next
    case (Inr r)
    obtain s' tid where r: "r = (s', tid)" by (cases r)
    from Inr r obtain s1 where mb: "mintBase nested e s student ipfsHash ACHIEVEMENT = Inr (s1, tid)"
      and s': "s' = emit (AchievementCertDetails tid title category) s1"
      by (auto elim: mintAchievementCertificate_InrD)
    from P mb have "P s1" by (rule mint)
    then have "P s'" unfolding s' by (rule ev) simp
    with MintAchievementCertificate Inr r show ?thesis by (simp add: transact_def)
  qed
next
  case (MintCustomCertificate student templateId fieldNames fieldValues ipfsHash)
  show ?thesis
  proof (cases "mintCustomCertificate nested e s student templateId fieldNames fieldValues ipfsHash")
    case (Inl err)
    with MintCustomCertificate P show ?thesis by (simp add: transact_def)
  next
    case (Inr r)
    obtain s' tid where r: "r = (s', tid)" by (cases r)
    from Inr r obtain s1 where mb: "mintBase nested e s student ipfsHash CUSTOM = Inr (s1, tid)"
      and s': "s' = emit (CustomCertDetails tid templateId) s1"
      by (auto elim: mintCustomCertificate_InrD)
    from P mb have "P s1" by (rule mint)
    then have "P s'" unfolding s' by (rule ev) simp
    with MintCustomCertificate Inr r show ?thesis by (simp add: transact_def)
  qed
next
  case (RevokeCertificate tokenId)
  show ?thesis
  proof (cases "revokeCertificate e s tokenId")
    case (Inl err)
    with RevokeCertificate P show ?thesis by (simp add: transact_def)
  next
    case (Inr r)
    then have ok: "owners s tokenId \<noteq> 0" "\<not> isRevoked (certConfigs s tokenId)"
      and r: "r = (emit (CertRevoked tokenId (sender e))
                  (s\<lparr>certConfigs := (certConfigs s)(tokenId := (certConfigs s tokenId)\<lparr>isRevoked := True\<rparr>)\<rparr>), ())"
      by (auto simp: revokeCertificate_def ownerOf_def split: if_splits)
    from P ok have "P (s\<lparr>certConfigs := (certConfigs s)(tokenId := (certConfigs s tokenId)\<lparr>isRevoked := True\<rparr>)\<rparr>)"
      by (rule rev)
    then have "P (fst r)" unfolding r fst_conv by (rule ev) simp
    with RevokeCertificate Inr r show ?thesis by (simp add: transact_def)
  qed
next
  case (VerifyCertificateByVerifier tokenId)
  show ?thesis
  proof (cases "verifyCertificateByVerifier e s tokenId")
    case (Inl err)
    with VerifyCertificateByVerifier P show ?thesis by (simp add: transact_def)
  next
    case (Inr r)
    then obtain valid cType where r: "r = (emit (CertVerified tokenId (sender e) valid) s, valid, cType)"
      by (auto simp: verifyCertificateByVerifier_def split: if_splits sum.splits)
    from P have "P (emit (CertVerified tokenId (sender e) valid) s)" by (rule ev) simp
    with VerifyCertificateByVerifier Inr r show ?thesis by (simp add: transact_def)
  qed
next
  case (SetBaseURI baseURI)
  with P uri[OF P, of baseURI] show ?thesis
    by (auto simp: transact_def setBaseURI_def)
next
  case Pause
  have "P (emit (Paused (sender e)) (s\<lparr>paused := True\<rparr>))"
    by (rule ev[OF pz[OF P]]) simp
  with Pause P show ?thesis by (auto simp: transact_def pause_def)
next
  case Unpause
  have "P (emit (Unpaused (sender e)) (s\<lparr>paused := False\<rparr>))"
    by (rule ev[OF pz[OF P]]) simp
  with Unpause P show ?thesis by (auto simp: transact_def unpause_def)
next
  case (GrantRole r a)
  have "P (emit (RoleGranted r a (sender e)) (s\<lparr>roles := (roles s)(r := (roles s r)(a := True))\<rparr>))"
    by (rule ev[OF rl[OF P]]) simp
  with GrantRole P show ?thesis by (auto simp: transact_def grantRole_def grantRole_internal_def)
next
  case (RevokeRole r a)
  have "P (emit (RoleRevoked r a (sender e)) (s\<lparr>roles := (roles s)(r := (roles s r)(a := False))\<rparr>))"
    by (rule ev[OF rl[OF P]]) simp
  with RevokeRole P show ?thesis by (auto simp: transact_def revokeRole_def revokeRole_internal_def)
qed

text \<open>
  With hooks that call back, to any depth: a property is kept by every call when it is
  kept by the two halves of \<open>_mintBase\<close> and by the other writes.
\<close>

lemma nestedAt_invariant:
  assumes P: "P s"
    and opn: "\<And>s to. P s \<Longrightarrow> to \<noteq> 0 \<Longrightarrow> owners s (Suc (tokenIdCounter s)) = 0 \<Longrightarrow> P (mintOpen s to)"
    and cls: "\<And>e s sh to h cT. P s \<Longrightarrow> P sh \<Longrightarrow> to \<noteq> 0 \<Longrightarrow> h \<noteq> []
                \<Longrightarrow> owners s (Suc (tokenIdCounter s)) = 0
                \<Longrightarrow> P (mintClose e sh to (Suc (tokenIdCounter s)) h cT)"
    and ev: "\<And>s ev. P s \<Longrightarrow> issued [ev] = [] \<Longrightarrow> P (emit ev s)"
    and uid: "\<And>s x y. P s \<Longrightarrow>
        P (s\<lparr>usedUniqueIdentifiers := ((usedUniqueIdentifiers s)(x := True))(y := True)\<rparr>)"
    and rev: "\<And>s t. P s \<Longrightarrow> owners s t \<noteq> 0 \<Longrightarrow> \<not> isRevoked (certConfigs s t) \<Longrightarrow>
        P (s\<lparr>certConfigs := (certConfigs s)(t := (certConfigs s t)\<lparr>isRevoked := True\<rparr>)\<rparr>)"
    and uri: "\<And>s u. P s \<Longrightarrow> P (s\<lparr>baseTokenURI := u\<rparr>)"
    and pz: "\<And>s b. P s \<Longrightarrow> P (s\<lparr>paused := b\<rparr>)"
    and rl: "\<And>s r. P s \<Longrightarrow> P (s\<lparr>roles := r\<rparr>)"
  shows "P (nestedAt d e c s)"
  using P
proof (induction d arbitrary: e c s)
  case 0
  then show ?case by simp
next
  case (Suc d)
  have "P (step (nestedAt d) e c s)"
  proof (rule step_invariant[where P = P, OF Suc.prems _ ev uid rev uri pz rl])
    fix s to h cT s1 tid
    assume p: "P s" and mb: "mintBase (nestedAt d) e s to h cT = Inr (s1, tid)"
    show "P s1"
    proof (rule mintBase_invariant[where P = P, OF mb p])
      fix e c s assume "P s"
      then show "P (nestedAt d e c s)" by (rule Suc.IH)
    next
      assume "to \<noteq> 0" "owners s (Suc (tokenIdCounter s)) = 0"
      with p show "P (mintOpen s to)" by (rule opn)
    next
      fix sh assume "P sh" "to \<noteq> 0" "h \<noteq> []" "owners s (Suc (tokenIdCounter s)) = 0"
      with p show "P (mintClose e sh to (Suc (tokenIdCounter s)) h cT)" by (rule cls)
    qed
  qed
  then show ?case by simp
qed


text \<open>
  Without callbacks: a property is kept by every call of a quiet world when it is kept
  by a whole mint and by the other writes.
\<close>

lemma step_quiet_invariant:
  assumes P: "P s" and q: "quiet e"
    and mint: "\<And>s to h cT. P s \<Longrightarrow> to \<noteq> 0 \<Longrightarrow> h \<noteq> [] \<Longrightarrow> \<not> usedHashes s h
                \<Longrightarrow> owners s (Suc (tokenIdCounter s)) = 0
                \<Longrightarrow> P (mintClose e (mintOpen s to) to (Suc (tokenIdCounter s)) h cT)"
    and ev: "\<And>s ev. P s \<Longrightarrow> issued [ev] = [] \<Longrightarrow> P (emit ev s)"
    and uid: "\<And>s x y. P s \<Longrightarrow>
        P (s\<lparr>usedUniqueIdentifiers := ((usedUniqueIdentifiers s)(x := True))(y := True)\<rparr>)"
    and rev: "\<And>s t. P s \<Longrightarrow> owners s t \<noteq> 0 \<Longrightarrow> \<not> isRevoked (certConfigs s t) \<Longrightarrow>
        P (s\<lparr>certConfigs := (certConfigs s)(t := (certConfigs s t)\<lparr>isRevoked := True\<rparr>)\<rparr>)"
    and uri: "\<And>s u. P s \<Longrightarrow> P (s\<lparr>baseTokenURI := u\<rparr>)"
    and pz: "\<And>s b. P s \<Longrightarrow> P (s\<lparr>paused := b\<rparr>)"
    and rl: "\<And>s r. P s \<Longrightarrow> P (s\<lparr>roles := r\<rparr>)"
  shows "P (step nested e c s)"
proof (rule step_invariant[where P = P, OF P _ ev uid rev uri pz rl])
  fix s to h cT s1 tid
  assume p: "P s" and mb: "mintBase nested e s to h cT = Inr (s1, tid)"
  note d = mintBase_InrD[OF mb]
  from mint[OF p d(1,2,3)] d(4,5) mintBase_quiet[OF mb q] show "P s1" by simp
qed

lemma run_quiet_invariant:
  assumes P: "P s" and q: "\<forall>x\<in>set cs. quiet (fst x)"
    and mint: "\<And>e s to h cT. P s \<Longrightarrow> to \<noteq> 0 \<Longrightarrow> h \<noteq> [] \<Longrightarrow> \<not> usedHashes s h
                \<Longrightarrow> owners s (Suc (tokenIdCounter s)) = 0
                \<Longrightarrow> P (mintClose e (mintOpen s to) to (Suc (tokenIdCounter s)) h cT)"
    and ev: "\<And>s ev. P s \<Longrightarrow> issued [ev] = [] \<Longrightarrow> P (emit ev s)"
    and uid: "\<And>s x y. P s \<Longrightarrow>
        P (s\<lparr>usedUniqueIdentifiers := ((usedUniqueIdentifiers s)(x := True))(y := True)\<rparr>)"
    and rev: "\<And>s t. P s \<Longrightarrow> owners s t \<noteq> 0 \<Longrightarrow> \<not> isRevoked (certConfigs s t) \<Longrightarrow>
        P (s\<lparr>certConfigs := (certConfigs s)(t := (certConfigs s t)\<lparr>isRevoked := True\<rparr>)\<rparr>)"
    and uri: "\<And>s u. P s \<Longrightarrow> P (s\<lparr>baseTokenURI := u\<rparr>)"
    and pz: "\<And>s b. P s \<Longrightarrow> P (s\<lparr>paused := b\<rparr>)"
    and rl: "\<And>s r. P s \<Longrightarrow> P (s\<lparr>roles := r\<rparr>)"
  shows "P (run d cs s)"
  using P q
proof (induction cs arbitrary: s)
  case Nil
  then show ?case by simp
next
  case (Cons x cs)
  obtain e c where x: "x = (e, c)" by (cases x)
  with Cons.prems have qe: "quiet e" and qs: "\<forall>x\<in>set cs. quiet (fst x)" by simp_all
  have "P (step (nestedAt d) e c s)"
    by (rule step_quiet_invariant[where P = P, OF Cons.prems(1) qe mint ev uid rev uri pz rl])
  then have "P (run d cs (step (nestedAt d) e c s))" using qs by (rule Cons.IH)
  with x show ?case by simp
qed

text \<open>The invariants that hold whatever the hooks do.\<close>

lemma nestedAt_usedHashes: "usedHashes s h \<Longrightarrow> usedHashes (nestedAt d e c s) h"
  by (rule nestedAt_invariant[where P = "\<lambda>s. usedHashes s h"]) auto


lemma nestedAt_usedUniqueIdentifiers:
  "usedUniqueIdentifiers s x \<Longrightarrow> usedUniqueIdentifiers (nestedAt d e c s) x"
  by (rule nestedAt_invariant[where P = "\<lambda>s. usedUniqueIdentifiers s x"]) auto


lemma nestedAt_counter_mono: "tokenIdCounter s \<le> tokenIdCounter (nestedAt d e c s)"
  by (rule nestedAt_invariant[where P = "\<lambda>s'. tokenIdCounter s \<le> tokenIdCounter s'"]) auto

lemma nestedAt_token_kept:
  assumes "owners s t \<noteq> 0"
  shows "owners (nestedAt d e c s) t \<noteq> 0
     \<and> certType (certConfigs (nestedAt d e c s) t) = certType (certConfigs s t)
     \<and> issuer (certConfigs (nestedAt d e c s) t) = issuer (certConfigs s t)
     \<and> issueDate (certConfigs (nestedAt d e c s) t) = issueDate (certConfigs s t)"
  by (rule nestedAt_invariant[where P = "\<lambda>s'. owners s' t \<noteq> 0
     \<and> certType (certConfigs s' t) = certType (certConfigs s t)
     \<and> issuer (certConfigs s' t) = issuer (certConfigs s t)
     \<and> issueDate (certConfigs s' t) = issueDate (certConfigs s t)"])
    (use assms in auto)

lemma nestedAt_owner_kept: "owners s t \<noteq> 0 \<Longrightarrow> owners (nestedAt d e c s) t \<noteq> 0"
  using nestedAt_token_kept by blast


text \<open>A successful \<open>_mintBase\<close> keeps the registered hashes and registers its own.\<close>

lemma mintBase_usedHashes:
  assumes "mintBase (nestedAt d) e s to h cT = Inr (s', tid)"
  shows "usedHashes s' h" and "usedHashes s x \<Longrightarrow> usedHashes s' x"
proof -
  note m = mintBase_InrD[OF assms]
  show "usedHashes s' h" by (simp add: m(7))
  assume x: "usedHashes s x"
  show "usedHashes s' x"
    by (rule mintBase_invariant[where P = "\<lambda>s. usedHashes s x", OF assms x])
      (use x in \<open>auto intro: nestedAt_usedHashes\<close>)
qed

text \<open>A batch loop that returns has found every element from \<open>i\<close> on acceptable.\<close>

lemma mintLoop_success:
  "mintLoop nested e students courseNames grades ipfsHashes len i s = Inr s' \<Longrightarrow>
   nested = nestedAt d \<Longrightarrow> i \<le> j \<Longrightarrow> j < len \<Longrightarrow>
   students ! j \<noteq> 0 \<and> ipfsHashes ! j \<noteq> [] \<and> \<not> usedHashes s (ipfsHashes ! j)
   \<and> (\<forall>k. i \<le> k \<and> k < j \<longrightarrow> ipfsHashes ! k \<noteq> ipfsHashes ! j)"
proof (induction nested e students courseNames grades ipfsHashes len i s rule: mintLoop.induct)
  case (1 nested e students courseNames grades ipfsHashes len i s)
  from "1.prems" have il: "i < len" by simp
  from "1.prems"(1) il have inb: "\<not> (length students \<le> i \<or> length ipfsHashes \<le> i \<or> length courseNames \<le> i \<or> length grades \<le> i)"
    by (subst (asm) mintLoop.simps) (auto split: if_splits)
  from "1.prems"(1) il inb obtain s1 tid where
    mb: "mintBase nested e s (students ! i) (ipfsHashes ! i) REGULAR = Inr (s1, tid)" and
    rest: "mintLoop nested e students courseNames grades ipfsHashes len (i + 1)
             (emit (RegularCertDetails tid (courseNames ! i) (grades ! i)) s1) = Inr s'"
    by (subst (asm) mintLoop.simps) (auto split: if_splits sum.splits)
  note m = mintBase_InrD[OF mb]
  from mb "1.prems"(2) have mb': "mintBase (nestedAt d) e s (students ! i) (ipfsHashes ! i) REGULAR = Inr (s1, tid)"
    by simp
  note u = mintBase_usedHashes[OF mb']
  show ?case
  proof (cases "j = i")
    case True
    with m show ?thesis by auto
  next
    case False
    with "1.prems" have ij: "i + 1 \<le> j" by simp
    from "1.IH"[OF il inb mb refl rest "1.prems"(2) ij "1.prems"(4)]
    have ih: "students ! j \<noteq> 0 \<and> ipfsHashes ! j \<noteq> [] \<and>
       \<not> usedHashes (emit (RegularCertDetails tid (courseNames ! i) (grades ! i)) s1) (ipfsHashes ! j) \<and>
       (\<forall>k. i + 1 \<le> k \<and> k < j \<longrightarrow> ipfsHashes ! k \<noteq> ipfsHashes ! j)" .
    then have n1: "\<not> usedHashes s1 (ipfsHashes ! j)" by simp
    from n1 u(2) have a: "\<not> usedHashes s (ipfsHashes ! j)" by blast
    from n1 u(1) have b: "ipfsHashes ! i \<noteq> ipfsHashes ! j" by auto
    have "\<forall>k. i \<le> k \<and> k < j \<longrightarrow> ipfsHashes ! k \<noteq> ipfsHashes ! j"
    proof (intro allI impI)
      fix k assume "i \<le> k \<and> k < j"
      then show "ipfsHashes ! k \<noteq> ipfsHashes ! j"
        using ih b by (cases "k = i") auto
    qed
    with ih a show ?thesis by blast
  qed
qed








subsection \<open>Facts about the example deployment\<close>

lemmas eval_defs = transact_def mintCertificate_def mintCertificatesBatch_def
  mintSemesterCertificate_def mintAchievementCertificate_def mintCustomCertificate_def
  revokeCertificate_def pause_def grantRole_def grantRole_internal_def
  mintLoop.simps mintBase_def safeMint_def setTokenURI_def
  hasRole_def ownerOf_def MAX_UINT256_def MAX_BATCH_SIZE_def Let_def

lemma nestedAt_numeral [simp]: "nestedAt (numeral n) = step (nestedAt (pred_numeral n))"
  by (simp add: numeral_eq_Suc)

lemma deployer_fields [simp]:
  "sender deployer = 1" "timestamp deployer = 1000"
  "onERC721Received deployer to operator tokenId s = ([], Accepts)"
  "sender outsider = 9" "timestamp outsider = 2000"
  "onERC721Received outsider to operator tokenId s = ([], Accepts)"
  by (simp_all add: deployer_def outsider_def)

lemma quiet_deployer [simp]: "quiet deployer" "quiet outsider"
  by (simp_all add: quiet_def)

lemma deployed_fields [simp]:
  "tokenIdCounter deployed = 0" "\<not> paused deployed" "usedHashes deployed h = False"
  "usedUniqueIdentifiers deployed h = False" "owners deployed t = 0"
  "studentCertificates deployed a = []"
  "roles deployed r a = (a = 1 \<and> r \<noteq> VERIFIER_ROLE)"
  "issued (logs deployed) = []"
  by (cases r; simp add: deployed_def constructor_def emptyRegistry_def grantRole_internal_def hasRole_def emit_def)+


lemma afterMint_fields [simp]:
  "tokenIdCounter afterMint = 1" "\<not> paused afterMint"
  "usedHashes afterMint h = (h = ''QmH1'')"
  "owners afterMint t = (if t = 1 then 2 else 0)"
  "isRevoked (certConfigs afterMint t) = False"
  "certType (certConfigs afterMint t) = REGULAR"
  "tokenURIs afterMint t = (if t = 1 then ''QmH1'' else [])"
  "roles afterMint r a = roles deployed r a"
  "studentCertificates afterMint a = (if a = 2 then [1] else [])"
  "issued (logs afterMint) = [(1, 2)]"
  by (simp_all add: afterMint_def eval_defs emptyRegistry_def zeroConfig_def
      deployed_def constructor_def)

lemma pausedRegistry_fields [simp]:
  "paused pausedRegistry"
  "owners pausedRegistry t = owners afterMint t"
  "certConfigs pausedRegistry t = certConfigs afterMint t"
  "roles pausedRegistry r a = roles deployed r a"
  by (simp_all add: pausedRegistry_def transact_def pause_def hasRole_def)

lemma afterRevoke_fields [simp]:
  "tokenIdCounter afterRevoke = 1" "\<not> paused afterRevoke"
  "usedHashes afterRevoke h = (h = ''QmH1'')"
  "usedUniqueIdentifiers afterRevoke x = False"
  "owners afterRevoke t = (if t = 1 then 2 else 0)"
  "isRevoked (certConfigs afterRevoke t) = (t = 1)"
  "certType (certConfigs afterRevoke t) = REGULAR"
  "roles afterRevoke r a = roles deployed r a"
  by (simp_all add: afterRevoke_def afterMint_def eval_defs emptyRegistry_def zeroConfig_def
      deployed_def constructor_def)

lemma history_fields:
  "tokenIdCounter (run 2 history deployed) = 4"
  "issued (logs (run 2 history deployed)) = [(1, 2), (2, 3), (3, 2), (4, 2)]"
  "studentCertificates (run 2 history deployed) 2 = [1, 3, 4]"
  "studentCertificates (run 2 history deployed) 3 = [2]"
  "studentCertificates (run 2 history deployed) 5 = []"
  "isRevoked (certConfigs (run 2 history deployed) 1)"
  by (simp_all add: history_def eval_defs)

lemma history_quiet: "\<forall>x\<in>set history. quiet (fst x)"
  by (simp add: history_def)

subsection \<open>Batch minting\<close>

text \<open>
  C1. Batch minting is all-or-nothing. When some element of the batch cannot be minted
  (zero owner address, empty content hash, or a content hash that is a duplicate of a
  registered hash or of an earlier element), \<open>mintCertificatesBatch\<close> reverts, whatever
  the hooks of the recipients do: the storage after the call is the storage before it,
  so no token is minted and the token id counter is unchanged.
\<close>

theorem mintCertificatesBatch_all_or_nothing:
  assumes "i < length students" and "i < length ipfsHashes"
    and "elementRejected s students ipfsHashes i"
  shows "(\<exists>err. mintCertificatesBatch (nestedAt d) e s students courseNames grades ipfsHashes = Inl err)
    \<and> transact s (mintCertificatesBatch (nestedAt d) e s students courseNames grades ipfsHashes) = s
    \<and> tokenIdCounter (transact s
          (mintCertificatesBatch (nestedAt d) e s students courseNames grades ipfsHashes))
        = tokenIdCounter s
    \<and> owners (transact s
          (mintCertificatesBatch (nestedAt d) e s students courseNames grades ipfsHashes))
        = owners s"
proof -
  have fails: "\<exists>err. mintCertificatesBatch (nestedAt d) e s students courseNames grades ipfsHashes = Inl err"
  proof (rule ccontr)
    assume "\<not> ?thesis"
    then obtain s' u where ok:
      "mintCertificatesBatch (nestedAt d) e s students courseNames grades ipfsHashes = Inr (s', u)"
      by (cases "mintCertificatesBatch (nestedAt d) e s students courseNames grades ipfsHashes") auto
    note loop = mintCertificatesBatch_InrD(1)[OF ok]
    from mintLoop_success[OF loop refl _ assms(1)]
    have ok_i: "students ! i \<noteq> 0 \<and> ipfsHashes ! i \<noteq> [] \<and> \<not> usedHashes s (ipfsHashes ! i)
      \<and> (\<forall>k. 0 \<le> k \<and> k < i \<longrightarrow> ipfsHashes ! k \<noteq> ipfsHashes ! i)" by simp
    from assms(3) ok_i have "ipfsHashes ! i \<in> set (take i ipfsHashes)"
      by (simp add: elementRejected_def)
    then obtain k where "k < i" "k < length ipfsHashes" "ipfsHashes ! k = ipfsHashes ! i"
      by (auto simp: in_set_conv_nth)
    with ok_i show False by simp
  qed
  then show ?thesis by (auto simp: transact_def)
qed

theorem mintCertificatesBatch_all_or_nothing_witness:
  "elementRejected afterMint [3, 2] [''QmH2'', ''QmH1''] 1
   \<and> transact afterMint (mintCertificatesBatch (nestedAt 2) deployer afterMint [3, 2]
         [''Course 2'', ''Course 3''] [''B'', ''C''] [''QmH2'', ''QmH1'']) = afterMint
   \<and> tokenIdCounter (transact afterMint (mintCertificatesBatch (nestedAt 2) deployer afterMint [3, 2]
         [''Course 2'', ''Course 3''] [''B'', ''C''] [''QmH2'', ''QmH1''])) = 1"
proof -
  have r: "elementRejected afterMint [3, 2] [''QmH2'', ''QmH1''] 1"
    by (simp add: elementRejected_def)
  have "(1::nat) < length [3::nat, 2]" and "(1::nat) < length [''QmH2'', ''QmH1'']" by simp_all
  from mintCertificatesBatch_all_or_nothing[OF this r, where d = 2 and e = deployer
      and courseNames = "[''Course 2'', ''Course 3'']" and grades = "[''B'', ''C'']"] r
  show ?thesis by simp
qed

text \<open>
  C2, as stated, fails: a batch of size 0 with four empty arrays, sent by a MINTER while
  the registry is not paused, is accepted and does nothing. The size check of the
  contract is \<open>len > MAX_BATCH_SIZE\<close> only.
\<close>

theorem mintCertificatesBatch_empty_counterexample:
  "mintCertificatesBatch (nestedAt 2) deployer deployed [] [] [] [] = Inr (deployed, ())"
  by (simp add: mintCertificatesBatch_def mintLoop.simps hasRole_def MAX_BATCH_SIZE_def)

text \<open>
  C2, amended. Called by a MINTER while the registry is not paused,
  \<open>mintCertificatesBatch\<close> fails with \<open>BatchLimit\<close> whenever the number of students
  exceeds \<open>MAX_BATCH_SIZE = 50\<close> (this check comes first), and with \<open>LengthMismatch\<close>
  whenever the number of students is at most 50 and one of the other arrays has a
  different length.
\<close>

theorem mintCertificatesBatch_limits:
  assumes "hasRole s MINTER_ROLE (sender e)" and "\<not> paused s"
    and "length students > MAX_BATCH_SIZE \<or> length courseNames \<noteq> length students
         \<or> length grades \<noteq> length students \<or> length ipfsHashes \<noteq> length students"
  shows "MAX_BATCH_SIZE = 50 \<and>
     mintCertificatesBatch nested e s students courseNames grades ipfsHashes
       = Inl (if length students > MAX_BATCH_SIZE then BatchLimit else LengthMismatch)"
  using assms by (auto simp: mintCertificatesBatch_def Let_def MAX_BATCH_SIZE_def)

theorem mintCertificatesBatch_limits_witness:
  "mintCertificatesBatch (nestedAt 2) deployer deployed [2, 3] [''C1''] [''A'', ''B''] [''QmA'', ''QmB'']
     = Inl LengthMismatch
   \<and> mintCertificatesBatch (nestedAt 2) deployer deployed (replicate 51 2) (replicate 51 ''C'')
       (replicate 51 ''A'') (replicate 51 ''Qm'') = Inl BatchLimit"
proof -
  have a: "hasRole deployed MINTER_ROLE (sender deployer)" by (simp add: hasRole_def)
  have b: "\<not> paused deployed" by simp
  have c: "length (replicate 51 (2::nat)) > MAX_BATCH_SIZE" by (simp add: MAX_BATCH_SIZE_def)
  have d: "\<not> length [2::nat, 3] > MAX_BATCH_SIZE" by (simp add: MAX_BATCH_SIZE_def)
  have e: "length [''C1''] \<noteq> length [2::nat, 3]" by simp
  show ?thesis
    using mintCertificatesBatch_limits[OF a b disjI2[OF disjI1[OF e]], where nested = "nestedAt 2"
          and grades = "[''A'', ''B'']" and ipfsHashes = "[''QmA'', ''QmB'']"]
      mintCertificatesBatch_limits[OF a b disjI1[OF c], where nested = "nestedAt 2"
          and courseNames = "replicate 51 ''C''" and grades = "replicate 51 ''A''"
          and ipfsHashes = "replicate 51 ''Qm''"]
      c d
    by simp
qed

subsection \<open>The verifiers argument\<close>

text \<open>
  C10. \<open>mintAchievementCertificate\<close> ignores its \<open>verifiers\<close> argument: two calls that
  differ in that array only have the same outcome, that is the same error, or the same
  returned token id and the same storage and log after the call.
\<close>

theorem mintAchievementCertificate_ignores_verifiers:
  "mintAchievementCertificate nested e s student title category ipfsHash verifiers
     = mintAchievementCertificate nested e s student title category ipfsHash verifiers'
   \<and> step nested e (MintAchievementCertificate student title category ipfsHash verifiers) s
     = step nested e (MintAchievementCertificate student title category ipfsHash verifiers') s"
  by (simp add: mintAchievementCertificate_def)

subsection \<open>Pausing\<close>

text \<open>
  C3, as stated, fails: \<open>revokeCertificate\<close> carries the ADMIN gate only and is not
  stopped by the pause. In a paused registry holding certificate 1, the revocation of
  certificate 1 by the administrator succeeds and changes the storage.
\<close>

theorem revoke_while_paused_counterexample:
  "paused pausedRegistry \<and> \<not> isRevoked (certConfigs pausedRegistry 1)
   \<and> \<not> isl (revokeCertificate deployer pausedRegistry 1)
   \<and> isRevoked (certConfigs (step (nestedAt 2) deployer (RevokeCertificate 1) pausedRegistry) 1)"
  by (simp add: revokeCertificate_def transact_def hasRole_def ownerOf_def)

text \<open>
  C3, amended. While the registry is paused, every mint variant (single, batch,
  semester, achievement, custom) is rejected and leaves the storage unchanged: with the
  paused-state error when the caller holds MINTER, and with the access-control error
  otherwise, since the capability gate runs first. \<open>revokeCertificate\<close> is never
  rejected with the paused-state error.
\<close>

theorem paused_rejects_every_mint:
  assumes "paused s"
  shows "mintCertificate nested e s student courseName grade ipfsHash
           = Inl (if hasRole s MINTER_ROLE (sender e) then EnforcedPause
                  else AccessControlUnauthorizedAccount (sender e) MINTER_ROLE)
    \<and> mintCertificatesBatch nested e s students courseNames grades ipfsHashes
           = Inl (if hasRole s MINTER_ROLE (sender e) then EnforcedPause
                  else AccessControlUnauthorizedAccount (sender e) MINTER_ROLE)
    \<and> mintSemesterCertificate nested e s student params ipfsHash
           = Inl (if hasRole s MINTER_ROLE (sender e) then EnforcedPause
                  else AccessControlUnauthorizedAccount (sender e) MINTER_ROLE)
    \<and> mintAchievementCertificate nested e s student title category ipfsHash verifiers
           = Inl (if hasRole s MINTER_ROLE (sender e) then EnforcedPause
                  else AccessControlUnauthorizedAccount (sender e) MINTER_ROLE)
    \<and> mintCustomCertificate nested e s student templateId fieldNames fieldValues ipfsHash
           = Inl (if hasRole s MINTER_ROLE (sender e) then EnforcedPause
                  else AccessControlUnauthorizedAccount (sender e) MINTER_ROLE)
    \<and> step nested e (MintCertificate student courseName grade ipfsHash) s = s
    \<and> step nested e (MintCertificatesBatch students courseNames grades ipfsHashes) s = s
    \<and> step nested e (MintSemesterCertificate student params ipfsHash) s = s
    \<and> step nested e (MintAchievementCertificate student title category ipfsHash verifiers) s = s
    \<and> step nested e (MintCustomCertificate student templateId fieldNames fieldValues ipfsHash) s = s
    \<and> revokeCertificate e s tokenId \<noteq> Inl EnforcedPause"
proof -
  have 1: "mintCertificate nested e s student courseName grade ipfsHash
           = Inl (if hasRole s MINTER_ROLE (sender e) then EnforcedPause
                  else AccessControlUnauthorizedAccount (sender e) MINTER_ROLE)"
    using assms by (simp add: mintCertificate_def)
  have 2: "mintCertificatesBatch nested e s students courseNames grades ipfsHashes
           = Inl (if hasRole s MINTER_ROLE (sender e) then EnforcedPause
                  else AccessControlUnauthorizedAccount (sender e) MINTER_ROLE)"
    using assms by (simp add: mintCertificatesBatch_def)
  have 3: "mintSemesterCertificate nested e s student params ipfsHash
           = Inl (if hasRole s MINTER_ROLE (sender e) then EnforcedPause
                  else AccessControlUnauthorizedAccount (sender e) MINTER_ROLE)"
    using assms by (simp add: mintSemesterCertificate_def)
  have 4: "mintAchievementCertificate nested e s student title category ipfsHash verifiers
           = Inl (if hasRole s MINTER_ROLE (sender e) then EnforcedPause
                  else AccessControlUnauthorizedAccount (sender e) MINTER_ROLE)"
    using assms by (simp add: mintAchievementCertificate_def)
  have 5: "mintCustomCertificate nested e s student templateId fieldNames fieldValues ipfsHash
           = Inl (if hasRole s MINTER_ROLE (sender e) then EnforcedPause
                  else AccessControlUnauthorizedAccount (sender e) MINTER_ROLE)"
    using assms by (simp add: mintCustomCertificate_def)
  have 6: "revokeCertificate e s tokenId \<noteq> Inl EnforcedPause"
    by (simp add: revokeCertificate_def)
  show ?thesis
    unfolding step_simps 1 2 3 4 5 using 6 by (simp add: transact_def)
qed

theorem paused_rejects_every_mint_witness:
  "mintCertificate (nestedAt 2) deployer pausedRegistry 3 ''Course 2'' ''B'' ''QmH2'' = Inl EnforcedPause
   \<and> mintCertificatesBatch (nestedAt 2) deployer pausedRegistry [3] [''Course 2''] [''B''] [''QmH2'']
       = Inl EnforcedPause
   \<and> mintCustomCertificate (nestedAt 2) outsider pausedRegistry 3 ''custom-v1'' [] [] ''QmH2''
       = Inl (AccessControlUnauthorizedAccount 9 MINTER_ROLE)
   \<and> step (nestedAt 2) deployer (MintCertificate 3 ''Course 2'' ''B'' ''QmH2'') pausedRegistry
       = pausedRegistry"
proof -
  have p: "paused pausedRegistry" by simp
  have m: "hasRole pausedRegistry MINTER_ROLE (sender deployer)" by (simp add: hasRole_def)
  have o: "\<not> hasRole pausedRegistry MINTER_ROLE (sender outsider)" by (simp add: hasRole_def)
  show ?thesis
    using paused_rejects_every_mint[OF p, where nested = "nestedAt 2" and e = deployer and student = 3
          and courseName = "''Course 2''" and grade = "''B''" and ipfsHash = "''QmH2''"
          and students = "[3]" and courseNames = "[''Course 2'']" and grades = "[''B'']"
          and ipfsHashes = "[''QmH2'']" and params = sampleParams and title = "''Best Coder''"
          and category = "''Academic''" and verifiers = "[]" and templateId = "''custom-v1''"
          and fieldNames = "[]" and fieldValues = "[]" and tokenId = 1]
      paused_rejects_every_mint[OF p, where nested = "nestedAt 2" and e = outsider and student = 3
          and courseName = "''Course 2''" and grade = "''B''" and ipfsHash = "''QmH2''"
          and students = "[3]" and courseNames = "[''Course 2'']" and grades = "[''B'']"
          and ipfsHashes = "[''QmH2'']" and params = sampleParams and title = "''Best Coder''"
          and category = "''Academic''" and verifiers = "[]" and templateId = "''custom-v1''"
          and fieldNames = "[]" and fieldValues = "[]" and tokenId = 1]
      m o
    by (simp add: transact_def)
qed

subsection \<open>Verification\<close>

lemma verifyCertificate_after_mintBase:
  assumes "mintBase (nestedAt d) minter before to ipfsHash cType = Inr (s, tokenId)"
  shows "verifyCertificate e s tokenId = Inr (True, ipfsHash, cType)"
proof -
  note m = mintBase_InrD[OF assms]
  let ?sh = "callBack (nestedAt d) minter
               (fst (onERC721Received minter to (sender minter) tokenId (mintOpen before to)))
               (mintOpen before to)"
  have "owners ?sh tokenId \<noteq> 0"
  proof (rule callBack_invariant[where P = "\<lambda>s. owners s tokenId \<noteq> 0"])
    fix e c and s :: registry
    assume "owners s tokenId \<noteq> 0"
    then show "owners (nestedAt d e c s) tokenId \<noteq> 0" by (rule nestedAt_owner_kept)
  next
    from m(1,4) show "owners (mintOpen before to) tokenId \<noteq> 0" by simp
  qed
  then have "owners s tokenId \<noteq> 0" "tokenURIs s tokenId = ipfsHash"
    "isRevoked (certConfigs s tokenId) = False" "certType (certConfigs s tokenId) = cType"
    by (simp_all add: m(7))
  then show ?thesis
    by (simp add: verifyCertificate_def tokenURI_def ownerOf_def Let_def)
qed

text \<open>
  C7. \<open>verifyCertificate\<close> is a read: it returns a value and no storage. For a token
  that does not exist or is revoked the answer is invalid with an empty reference;
  otherwise it is valid with the stored reference and the certificate type of the token.
  The answer depends neither on the caller nor on any capability or on the pause switch,
  and for a token just minted the stored reference is the content hash given to the mint.
\<close>

theorem verifyCertificate_pure_read:
  "verifyCertificate e s tokenId =
     Inr (if ownerOf s tokenId = 0 then (False, [], REGULAR)
          else if isRevoked (certConfigs s tokenId) then (False, [], certType (certConfigs s tokenId))
          else (True, tokenURIs s tokenId, certType (certConfigs s tokenId)))
   \<and> verifyCertificate e' (s\<lparr>roles := r, paused := p\<rparr>) tokenId = verifyCertificate e s tokenId
   \<and> (mintBase (nestedAt d) minter before to ipfsHash cType = Inr (s, tokenId) \<longrightarrow>
        verifyCertificate e s tokenId = Inr (True, ipfsHash, cType))"
proof -
  have a: "verifyCertificate e s tokenId =
     Inr (if ownerOf s tokenId = 0 then (False, [], REGULAR)
          else if isRevoked (certConfigs s tokenId) then (False, [], certType (certConfigs s tokenId))
          else (True, tokenURIs s tokenId, certType (certConfigs s tokenId)))"
    by (simp add: verifyCertificate_def tokenURI_def ownerOf_def Let_def)
  have b: "verifyCertificate e' (s\<lparr>roles := r, paused := p\<rparr>) tokenId = verifyCertificate e s tokenId"
    by (simp add: verifyCertificate_def tokenURI_def ownerOf_def Let_def)
  from a b verifyCertificate_after_mintBase show ?thesis by blast
qed

theorem verifyCertificate_pure_read_witness:
  "verifyCertificate outsider (transact deployed (mintBase (nestedAt 2) deployer deployed 2 ''QmH1'' REGULAR)) 1
     = Inr (True, ''QmH1'', REGULAR)
   \<and> verifyCertificate outsider afterMint 7 = Inr (False, [], REGULAR)
   \<and> verifyCertificate outsider (step (nestedAt 2) deployer (RevokeCertificate 1) afterMint) 1
       = Inr (False, [], REGULAR)"
proof -
  have m: "mintBase (nestedAt 2) deployer deployed 2 ''QmH1'' REGULAR
             = Inr (transact deployed (mintBase (nestedAt 2) deployer deployed 2 ''QmH1'' REGULAR), 1)"
    by (simp add: transact_def mintBase_def safeMint_def setTokenURI_def MAX_UINT256_def Let_def)
  have r: "isRevoked (certConfigs (step (nestedAt 2) deployer (RevokeCertificate 1) afterMint) 1)"
    "ownerOf (step (nestedAt 2) deployer (RevokeCertificate 1) afterMint) 1 = 2"
    "certType (certConfigs (step (nestedAt 2) deployer (RevokeCertificate 1) afterMint) 1) = REGULAR"
    by (simp_all add: revokeCertificate_def transact_def hasRole_def ownerOf_def)
  have a: "verifyCertificate outsider (transact deployed (mintBase (nestedAt 2) deployer deployed 2 ''QmH1'' REGULAR)) 1
     = Inr (True, ''QmH1'', REGULAR)"
    using verifyCertificate_pure_read[where e = outsider and e' = outsider and minter = deployer
        and s = "transact deployed (mintBase (nestedAt 2) deployer deployed 2 ''QmH1'' REGULAR)"
        and tokenId = 1 and d = 2
        and r = "roles deployed" and p = False and before = deployed and to = 2
        and ipfsHash = "''QmH1''" and cType = REGULAR] m
    by blast
  have b: "verifyCertificate outsider afterMint 7 = Inr (False, [], REGULAR)"
    using verifyCertificate_pure_read[where e = outsider and e' = outsider and minter = deployer
        and s = afterMint and tokenId = 7 and d = 2
        and r = "roles deployed" and p = False and before = deployed and to = 2
        and ipfsHash = "''QmH1''" and cType = REGULAR]
    by (simp add: ownerOf_def)
  have c: "verifyCertificate outsider (step (nestedAt 2) deployer (RevokeCertificate 1) afterMint) 1
       = Inr (False, [], REGULAR)"
    using verifyCertificate_pure_read[where e = outsider and e' = outsider and minter = deployer
        and s = "step (nestedAt 2) deployer (RevokeCertificate 1) afterMint" and tokenId = 1 and d = 2
        and r = "roles deployed" and p = False and before = deployed and to = 2
        and ipfsHash = "''QmH1''" and cType = REGULAR] r
    by simp
  from a b c show ?thesis by simp
qed

subsection \<open>The owner index\<close>

lemma constructor_fields [simp]:
  "tokenIdCounter (constructor e) = 0" "issued (logs (constructor e)) = []"
  "studentCertificates (constructor e) a = []" "\<not> paused (constructor e)"
  by (simp_all add: constructor_def grantRole_internal_def hasRole_def emptyRegistry_def emit_def)



subsection \<open>Content hashes\<close>




lemma grantRole_fields [simp]:
  "tokenIdCounter (step nested e (GrantRole r a) s) = tokenIdCounter s"
  "paused (step nested e (GrantRole r a) s) = paused s"
  "usedHashes (step nested e (GrantRole r a) s) = usedHashes s"
  "usedUniqueIdentifiers (step nested e (GrantRole r a) s) = usedUniqueIdentifiers s"
  "owners (step nested e (GrantRole r a) s) = owners s"
  "studentCertificates (step nested e (GrantRole r a) s) = studentCertificates s"
  "certConfigs (step nested e (GrantRole r a) s) = certConfigs s"
  "issued (logs (step nested e (GrantRole r a) s)) = issued (logs s)"
  "serials (logs (step nested e (GrantRole r a) s)) = serials (logs s)"
  "roles s DEFAULT_ADMIN_ROLE (sender e) \<Longrightarrow>
     roles (step nested e (GrantRole r a) s) r' a' = (r' = r \<and> a' = a \<or> roles s r' a')"
  by (auto simp: transact_def grantRole_def grantRole_internal_def hasRole_def emit_def
      simp del: step_simps(11) simp add: step_simps(11)[unfolded transact_def])

lemma withContract_fields [simp]:
  "tokenIdCounter withContract = 0" "\<not> paused withContract"
  "usedHashes withContract h = False" "usedUniqueIdentifiers withContract x = False"
  "owners withContract t = 0"
  "roles withContract r a
     = (a = 1 \<and> r \<noteq> VERIFIER_ROLE \<or> a = 5 \<and> (r = MINTER_ROLE \<or> r = ADMIN_ROLE))"
  "issued (logs withContract) = []" "serials (logs withContract) = []"
  "studentCertificates withContract a = []"
  "isRevoked (certConfigs withContract t) = False"
  by (auto simp add: withContract_def deployed_def constructor_def emptyRegistry_def
        grantRole_internal_def hasRole_def emit_def zeroConfig_def
      simp del: step_simps nestedAt_numeral intro: role.exhaust)

lemma reentrantMint_result:
  "mintCertificate (nestedAt 2) mintingRecipient withContract 5 ''Course 1'' ''A'' ''QmH1''
     = Inr (reentrantMint, 1)"
  by (simp add: reentrantMint_def mintingRecipient_def eval_defs)

lemma reentrantMint_fields:
  "map fst (issued (logs reentrantMint)) = [2, 1]" "tokenIdCounter reentrantMint = 2"
  "owners reentrantMint 2 = 3" "owners reentrantMint 1 = 5"
  by (simp_all add: reentrantMint_def mintingRecipient_def eval_defs)




lemma run_quiet_issued_ids:
  assumes "map fst (issued (logs s)) = [1 ..< Suc (tokenIdCounter s)]"
    and "\<forall>x\<in>set cs. quiet (fst x)"
  shows "map fst (issued (logs (run d cs s))) = [1 ..< Suc (tokenIdCounter (run d cs s))]"
  by (rule run_quiet_invariant[where P = "\<lambda>s. map fst (issued (logs s)) = [1 ..< Suc (tokenIdCounter s)]"])
    (use assms in auto)

lemma mintLoop_quiet_issued:
  "mintLoop nested e students courseNames grades ipfsHashes len i s = Inr s' \<Longrightarrow>
   quiet e \<Longrightarrow> len = length students \<Longrightarrow> i \<le> len \<Longrightarrow>
   tokenIdCounter s' = tokenIdCounter s + (len - i)
   \<and> issued (logs s') = issued (logs s)
        @ zip [Suc (tokenIdCounter s) ..< Suc (tokenIdCounter s + (len - i))] (drop i students)"
proof (induction nested e students courseNames grades ipfsHashes len i s rule: mintLoop.induct)
  case (1 nested e students courseNames grades ipfsHashes len i s)
  show ?case
  proof (cases "i < len")
    case False
    with "1.prems" show ?thesis by (subst (asm) mintLoop.simps) simp
  next
    case il: True
    from "1.prems"(1) il have inb: "\<not> (length students \<le> i \<or> length ipfsHashes \<le> i \<or> length courseNames \<le> i \<or> length grades \<le> i)"
      by (subst (asm) mintLoop.simps) (auto split: if_splits)
    from "1.prems"(1) il inb obtain s1 tid where
      mb: "mintBase nested e s (students ! i) (ipfsHashes ! i) REGULAR = Inr (s1, tid)" and
      rest: "mintLoop nested e students courseNames grades ipfsHashes len (i + 1)
             (emit (RegularCertDetails tid (courseNames ! i) (grades ! i)) s1) = Inr s'"
      by (subst (asm) mintLoop.simps) (auto split: if_splits sum.splits)
    note d = mintBase_InrD[OF mb]
    note q = mintBase_quiet[OF mb "1.prems"(2)]
    from il have il': "i + 1 \<le> len" by simp
    note ih = "1.IH"[OF il inb mb refl rest "1.prems"(2,3) il']
    let ?c = "tokenIdCounter s"
    have eq: "Suc (?c + (len - Suc i)) = ?c + (len - i)" using il by arith
    have ih1: "tokenIdCounter s' = ?c + (len - i)"
      using ih il by (simp add: q)
    have ih2: "issued (logs s') = (issued (logs s) @ [(Suc ?c, students ! i)])
        @ zip [Suc (Suc ?c) ..< Suc (?c + (len - i))] (drop (Suc i) students)"
      using ih by (simp add: q d(4) eq del: upt_Suc)
    have dr: "drop i students = students ! i # drop (Suc i) students"
      using il "1.prems"(3) by (simp add: Cons_nth_drop_Suc)
    have up: "[Suc ?c ..< Suc (?c + (len - i))] = Suc ?c # [Suc (Suc ?c) ..< Suc (?c + (len - i))]"
      by (rule upt_conv_Cons) (use il in arith)
    show ?thesis
      unfolding dr up ih1 ih2 by simp
  qed
qed

subsection \<open>Token identifiers\<close>

text \<open>
  A successful \<open>_mintBase\<close> leaves the counter at or above its id, and the token with the
  recipient as long as the hook calls only the entry points of the interface.
\<close>

lemma nestedAt_owner_eq:
  assumes "owners s t = a" and "a \<noteq> 0"
  shows "owners (nestedAt d e c s) t = a"
  by (rule nestedAt_invariant[where P = "\<lambda>s'. owners s' t = a"]) (use assms in auto)

lemma mintBase_owner:
  assumes "mintBase (nestedAt d) e s to h cT = Inr (s', tid)"
  shows "owners s' tid = to \<and> tid \<le> tokenIdCounter s'"
proof -
  note m = mintBase_InrD[OF assms]
  let ?sh = "callBack (nestedAt d) e (fst (onERC721Received e to (sender e) tid (mintOpen s to)))
               (mintOpen s to)"
  have "owners ?sh tid = to \<and> tid \<le> tokenIdCounter ?sh"
  proof (rule callBack_invariant[where P = "\<lambda>x. owners x tid = to \<and> tid \<le> tokenIdCounter x"])
    fix e' c and x :: registry
    assume p: "owners x tid = to \<and> tid \<le> tokenIdCounter x"
    from p m(1) have "owners (nestedAt d e' c x) tid = to" by (intro nestedAt_owner_eq) simp_all
    moreover from p nestedAt_counter_mono[of x d e' c]
    have "tid \<le> tokenIdCounter (nestedAt d e' c x)" by simp
    ultimately show "owners (nestedAt d e' c x) tid = to \<and> tid \<le> tokenIdCounter (nestedAt d e' c x)"
      by simp
  qed (simp add: m(4))
  then show ?thesis by (subst (1 2) m(7)) simp
qed

lemma single_mint_base:
  assumes "mintCertificate nested e s student courseName grade ipfsHash = Inr (s', tid)
       \<or> mintSemesterCertificate nested e s student params ipfsHash = Inr (s', tid)
       \<or> mintAchievementCertificate nested e s student title category ipfsHash verifiers = Inr (s', tid)
       \<or> mintCustomCertificate nested e s student templateId fieldNames fieldValues ipfsHash = Inr (s', tid)"
  obtains s1 cT ev where "mintBase nested e s student ipfsHash cT = Inr (s1, tid)"
    and "tokenIdCounter s' = tokenIdCounter s1" and "owners s' = owners s1"
    and "logs s' = logs s1 @ [ev]" and "issued [ev] = []"
  using assms
  by (elim disjE mintCertificate_InrD mintSemesterCertificate_InrD
      mintAchievementCertificate_InrD mintCustomCertificate_InrD) (simp_all add: emit_def)

lemma single_mint_id:
  assumes "mintCertificate (nestedAt d) e s student courseName grade ipfsHash = Inr (s', tid)
       \<or> mintSemesterCertificate (nestedAt d) e s student params ipfsHash = Inr (s', tid)
       \<or> mintAchievementCertificate (nestedAt d) e s student title category ipfsHash verifiers
            = Inr (s', tid)
       \<or> mintCustomCertificate (nestedAt d) e s student templateId fieldNames fieldValues ipfsHash
            = Inr (s', tid)"
  shows "tid = tokenIdCounter s + 1 \<and> tid \<noteq> 0 \<and> owners s tid = 0
       \<and> owners s' tid \<noteq> 0 \<and> tid \<le> tokenIdCounter s'
       \<and> (quiet e \<longrightarrow> tokenIdCounter s' = tid \<and> owners s' tid = student
            \<and> issued (logs s') = issued (logs s) @ [(tid, student)])"
proof -
  from assms obtain s1 cT ev where mb: "mintBase (nestedAt d) e s student ipfsHash cT = Inr (s1, tid)"
    and s': "tokenIdCounter s' = tokenIdCounter s1" "owners s' = owners s1"
      "logs s' = logs s1 @ [ev]" "issued [ev] = []"
    by (rule single_mint_base)
  note m = mintBase_InrD[OF mb]
  have a: "tid = tokenIdCounter s + 1 \<and> tid \<noteq> 0 \<and> owners s tid = 0"
    using m(4,5) by simp
  have o: "owners s' tid \<noteq> 0 \<and> tid \<le> tokenIdCounter s'"
    using mintBase_owner[OF mb] s'(1,2) m(1) by simp
  have b: "tokenIdCounter s' = tid \<and> owners s' tid = student
           \<and> issued (logs s') = issued (logs s) @ [(tid, student)]"
    if "quiet e"
    using s' m(4) by (simp add: mintBase_quiet[OF mb that])
  from a o b show ?thesis by blast
qed

lemma batch_ids:
  assumes "mintCertificatesBatch nested e s students courseNames grades ipfsHashes = Inr (sb, u)"
    and "quiet e"
  shows "tokenIdCounter sb = tokenIdCounter s + length students
     \<and> issued (logs sb) = issued (logs s)
          @ zip [Suc (tokenIdCounter s) ..< Suc (tokenIdCounter s + length students)] students"
  using mintLoop_quiet_issued[OF mintCertificatesBatch_InrD(1)[OF assms(1)] assms(2) refl] by simp

text \<open>
  C4, as stated, fails when the recipient is a contract that mints from its hook.
  \<open>_mintBase\<close> takes the id from the counter before \<open>_safeMint\<close> calls the recipient,
  and emits \<open>CertificateIssued\<close> after it. The contract \<open>5\<close>, a MINTER, mints for student
  3 from its hook: that mint succeeds first, with id 2, and the mint for \<open>5\<close> then succeeds
  and returns 1, which is not one greater than the id of the previous successful mint.
\<close>

theorem tokenIds_reentrant_counterexample:
  "mintCertificate (nestedAt 2) mintingRecipient withContract 5 ''Course 1'' ''A'' ''QmH1''
     = Inr (reentrantMint, 1)
   \<and> map fst (issued (logs reentrantMint)) = [2, 1]
   \<and> owners reentrantMint 2 = 3
   \<and> tokenIdCounter reentrantMint = 2"
  using reentrantMint_result reentrantMint_fields by blast

text \<open>
  C4, amended. Whatever the hooks do, a successful single mint of any variant returns
  the counter plus one, which is not 0 and had no owner before, and leaves the token
  with an owner and the counter at or above the id; no transaction lowers the
  counter; and an id that has an owner keeps one and keeps the certificate type, issuer
  and issue date recorded at its mint, so an id is never assigned again. When no hook
  calls into the registry, token ids are handed out one by one: in every history since
  the deployment the ids of the mints in the log, in order, are exactly 1, 2, ..., up to
  the counter; a successful single mint leaves the counter at the returned id and the
  token with the student, as the next record of the log; and a successful batch consumes
  one id per element in input order.
\<close>

theorem tokenIds_sequential:
  "((\<forall>x\<in>set cs. quiet (fst x)) \<longrightarrow>
      map fst (issued (logs (run d cs (constructor ed))))
        = [1 ..< Suc (tokenIdCounter (run d cs (constructor ed)))])
   \<and> ((mintCertificate (nestedAt d) e s student courseName grade ipfsHash = Inr (s', tid)
       \<or> mintSemesterCertificate (nestedAt d) e s student params ipfsHash = Inr (s', tid)
       \<or> mintAchievementCertificate (nestedAt d) e s student title category ipfsHash verifiers
            = Inr (s', tid)
       \<or> mintCustomCertificate (nestedAt d) e s student templateId fieldNames fieldValues ipfsHash
            = Inr (s', tid))
      \<longrightarrow> tid = tokenIdCounter s + 1 \<and> tid \<noteq> 0 \<and> owners s tid = 0
          \<and> owners s' tid \<noteq> 0 \<and> tid \<le> tokenIdCounter s'
          \<and> (quiet e \<longrightarrow> tokenIdCounter s' = tid \<and> owners s' tid = student
               \<and> issued (logs s') = issued (logs s) @ [(tid, student)]))
   \<and> (mintCertificatesBatch (nestedAt d) e s students courseNames grades ipfsHashes = Inr (sb, u)
       \<and> quiet e
      \<longrightarrow> tokenIdCounter sb = tokenIdCounter s + length students
          \<and> issued (logs sb) = issued (logs s)
               @ zip [Suc (tokenIdCounter s) ..< Suc (tokenIdCounter s + length students)] students)
   \<and> (owners s t \<noteq> 0 \<longrightarrow>
        owners (step (nestedAt d) e c s) t \<noteq> 0
        \<and> certType (certConfigs (step (nestedAt d) e c s) t) = certType (certConfigs s t)
        \<and> issuer (certConfigs (step (nestedAt d) e c s) t) = issuer (certConfigs s t)
        \<and> issueDate (certConfigs (step (nestedAt d) e c s) t) = issueDate (certConfigs s t))
   \<and> tokenIdCounter s \<le> tokenIdCounter (step (nestedAt d) e c s)"
proof -
  have a: "map fst (issued (logs (run d cs (constructor ed))))
        = [1 ..< Suc (tokenIdCounter (run d cs (constructor ed)))]"
    if "\<forall>x\<in>set cs. quiet (fst x)"
    by (rule run_quiet_issued_ids[OF _ that]) simp
  have k: "owners (step (nestedAt d) e c s) t \<noteq> 0
        \<and> certType (certConfigs (step (nestedAt d) e c s) t) = certType (certConfigs s t)
        \<and> issuer (certConfigs (step (nestedAt d) e c s) t) = issuer (certConfigs s t)
        \<and> issueDate (certConfigs (step (nestedAt d) e c s) t) = issueDate (certConfigs s t)"
    if "owners s t \<noteq> 0"
    using nestedAt_token_kept[OF that, of "Suc d" e c] by simp
  have m: "tokenIdCounter s \<le> tokenIdCounter (step (nestedAt d) e c s)"
    using nestedAt_counter_mono[of s "Suc d" e c] by simp
  from a k m show ?thesis
    using single_mint_id[of d e s student courseName grade ipfsHash s' tid params title category
        verifiers templateId fieldNames fieldValues]
      batch_ids[of "nestedAt d" e s students courseNames grades ipfsHashes sb u]
    by blast
qed

theorem tokenIds_sequential_witness:
  "map fst (issued (logs (run 2 history (constructor deployer)))) = [1, 2, 3, 4]
   \<and> mintCustomCertificate (nestedAt 2) deployer afterMint 3 ''custom-v1'' [] [] ''QmH2''
       = Inr (step (nestedAt 2) deployer (MintCustomCertificate 3 ''custom-v1'' [] [] ''QmH2'') afterMint, 2)
   \<and> tokenIdCounter (step (nestedAt 2) deployer (MintCustomCertificate 3 ''custom-v1'' [] [] ''QmH2'') afterMint) = 2
   \<and> issued (logs (step (nestedAt 2) deployer
         (MintCertificatesBatch [3, 2] [''Course 2'', ''Course 3''] [''B'', ''C''] [''QmH2'', ''QmH3''])
         afterMint)) = [(1, 2), (2, 3), (3, 2)]
   \<and> issuer (certConfigs (step (nestedAt 2) deployer (RevokeCertificate 1) afterMint) 1) = 1
   \<and> issueDate (certConfigs (step (nestedAt 2) deployer (RevokeCertificate 1) afterMint) 1) = 1000"
proof -
  let ?s1 = "step (nestedAt 2) deployer (MintCustomCertificate 3 ''custom-v1'' [] [] ''QmH2'') afterMint"
  let ?sb = "step (nestedAt 2) deployer
         (MintCertificatesBatch [3, 2] [''Course 2'', ''Course 3''] [''B'', ''C''] [''QmH2'', ''QmH3''])
         afterMint"
  have h1: "mintCustomCertificate (nestedAt 2) deployer afterMint 3 ''custom-v1'' [] [] ''QmH2'' = Inr (?s1, 2)"
    by (simp add: eval_defs)
  have h2: "mintCertificatesBatch (nestedAt 2) deployer afterMint [3, 2] [''Course 2'', ''Course 3''] [''B'', ''C'']
              [''QmH2'', ''QmH3''] = Inr (?sb, ())"
    by (simp add: eval_defs)
  have h3: "owners afterMint 1 \<noteq> 0" by simp
  have q: "quiet deployer" by simp
  note t = tokenIds_sequential[where cs = history and d = 2 and ed = deployer and e = deployer
      and s = afterMint and student = 3 and courseName = "''Course 2''" and grade = "''B''"
      and ipfsHash = "''QmH2''" and s' = ?s1 and tid = 2 and params = sampleParams
      and title = "''Best Coder''" and category = "''Academic''" and verifiers = "[]"
      and templateId = "''custom-v1''" and fieldNames = "[]" and fieldValues = "[]"
      and students = "[3, 2]" and courseNames = "[''Course 2'', ''Course 3'']"
      and grades = "[''B'', ''C'']" and ipfsHashes = "[''QmH2'', ''QmH3'']" and sb = ?sb
      and u = "()" and t = 1 and c = "RevokeCertificate 1"]
  note t1 = t[THEN conjunct1]
  note t2 = t[THEN conjunct2, THEN conjunct1]
  note t3 = t[THEN conjunct2, THEN conjunct2, THEN conjunct1]
  note t4 = t[THEN conjunct2, THEN conjunct2, THEN conjunct2, THEN conjunct1]
  have "map fst (issued (logs (run 2 history (constructor deployer))))
          = [1 ..< Suc (tokenIdCounter (run 2 history deployed))]"
    using t1 history_quiet by (simp only: deployed_def)
  also have "\<dots> = [1, 2, 3, 4]"
    by (simp add: history_fields(1) upt_rec)
  finally have a: "map fst (issued (logs (run 2 history (constructor deployer)))) = [1, 2, 3, 4]" .
  have b: "tokenIdCounter ?s1 = 2"
    using t2 h1 q by blast
  have "issued (logs ?sb) = issued (logs afterMint)
               @ zip [Suc (tokenIdCounter afterMint) ..< Suc (tokenIdCounter afterMint + length [3::nat, 2])] [3, 2]"
    using t3 h2 q by blast
  then have c: "issued (logs ?sb) = [(1, 2), (2, 3), (3, 2)]"
    by (simp add: upt_rec)
  have m: "issuer (certConfigs afterMint 1) = 1" "issueDate (certConfigs afterMint 1) = 1000"
    by (simp_all add: afterMint_def eval_defs)
  have d: "issuer (certConfigs (step (nestedAt 2) deployer (RevokeCertificate 1) afterMint) 1) = 1
     \<and> issueDate (certConfigs (step (nestedAt 2) deployer (RevokeCertificate 1) afterMint) 1) = 1000"
    using t4 h3 m by simp
  from a h1 b c d show ?thesis by blast
qed

subsection \<open>Revocation\<close>









subsection \<open>Semester certificates\<close>








end
